theory Spec2Isabelle
  imports Complex_Main
begin

section \<open>The Canvas 2D interface the components draw through\<close>

text \<open>
  The three drawing components (DrawingCell.tsx, MiniDrawing and PDFCell) paint through the
  browser's CanvasRenderingContext2D. The browser is not part of the repository, so a canvas
  is kept symbolically: its raster is the ordered list of paint operations that reached it,
  each with the drawing attributes in force when it was issued, and the context holds the
  attributes and the current path. Two canvases with the same raster show the same pixels.
  JavaScript numbers are modelled as reals.
\<close>

type_synonym colour = string

datatype compositeOp = SourceOver | DestinationOut | Multiply

datatype capStyle = Butt | Round

datatype joinStyle = Miter | RoundJoin

datatype pathOp =
    MoveTo real real
  | LineTo real real
  | Arc real real real real real
  | Ellipse real real real real real real real

record brush =
  paintColour :: colour
  paintWidth :: real
  paintCap :: capStyle
  paintJoin :: joinStyle
  paintAlpha :: real
  paintOp :: compositeOp

datatype paint =
    FillRect brush real real real real
  | StrokeRect brush real real real real
  | FillPath brush "pathOp list"
  | StrokePath brush "pathOp list"
  | ClearRect real real real real
  | DrawImage real compositeOp "paint list" real real real real
  | PutImageData "paint list" real real

type_synonym raster = "paint list"

record imageData =
  imgWidth :: real
  imgHeight :: real
  imgData :: raster

record canvas =
  width :: real
  height :: real
  raster :: raster
  fillStyle :: colour
  strokeStyle :: colour
  lineWidth :: real
  lineCap :: capStyle
  lineJoin :: joinStyle
  globalAlpha :: real
  globalCompositeOperation :: compositeOp
  path :: "pathOp list"

definition newCanvas :: "real \<Rightarrow> real \<Rightarrow> canvas" where
  "newCanvas w h =
     \<lparr>width = w, height = h, raster = [], fillStyle = ''#000000'', strokeStyle = ''#000000'',
      lineWidth = 1, lineCap = Butt, lineJoin = Miter, globalAlpha = 1,
      globalCompositeOperation = SourceOver, path = []\<rparr>"

definition fillBrush :: "canvas \<Rightarrow> brush" where
  "fillBrush c =
     \<lparr>paintColour = fillStyle c, paintWidth = lineWidth c, paintCap = lineCap c,
      paintJoin = lineJoin c, paintAlpha = globalAlpha c,
      paintOp = globalCompositeOperation c\<rparr>"

definition strokeBrush :: "canvas \<Rightarrow> brush" where
  "strokeBrush c =
     \<lparr>paintColour = strokeStyle c, paintWidth = lineWidth c, paintCap = lineCap c,
      paintJoin = lineJoin c, paintAlpha = globalAlpha c,
      paintOp = globalCompositeOperation c\<rparr>"

definition emit :: "paint \<Rightarrow> canvas \<Rightarrow> canvas" where
  "emit p c = c\<lparr>raster := raster c @ [p]\<rparr>"

definition beginPath :: "canvas \<Rightarrow> canvas" where
  "beginPath c = c\<lparr>path := []\<rparr>"

definition moveTo :: "real \<Rightarrow> real \<Rightarrow> canvas \<Rightarrow> canvas" where
  "moveTo x y c = c\<lparr>path := path c @ [MoveTo x y]\<rparr>"

definition lineTo :: "real \<Rightarrow> real \<Rightarrow> canvas \<Rightarrow> canvas" where
  "lineTo x y c = c\<lparr>path := path c @ [LineTo x y]\<rparr>"

definition arc :: "real \<Rightarrow> real \<Rightarrow> real \<Rightarrow> real \<Rightarrow> real \<Rightarrow> canvas \<Rightarrow> canvas" where
  "arc x y r a0 a1 c = c\<lparr>path := path c @ [Arc x y r a0 a1]\<rparr>"

definition ellipse ::
  "real \<Rightarrow> real \<Rightarrow> real \<Rightarrow> real \<Rightarrow> real \<Rightarrow> real \<Rightarrow> real \<Rightarrow> canvas \<Rightarrow> canvas" where
  "ellipse x y rx ry rot a0 a1 c = c\<lparr>path := path c @ [Ellipse x y rx ry rot a0 a1]\<rparr>"

definition stroke :: "canvas \<Rightarrow> canvas" where
  "stroke c = emit (StrokePath (strokeBrush c) (path c)) c"

definition fill :: "canvas \<Rightarrow> canvas" where
  "fill c = emit (FillPath (fillBrush c) (path c)) c"

definition fillRect :: "real \<Rightarrow> real \<Rightarrow> real \<Rightarrow> real \<Rightarrow> canvas \<Rightarrow> canvas" where
  "fillRect x y w h c = emit (FillRect (fillBrush c) x y w h) c"

definition strokeRect :: "real \<Rightarrow> real \<Rightarrow> real \<Rightarrow> real \<Rightarrow> canvas \<Rightarrow> canvas" where
  "strokeRect x y w h c = emit (StrokeRect (strokeBrush c) x y w h) c"

text \<open>
  \<open>clearRect\<close> over the whole canvas leaves every pixel transparent, which is the empty
  raster; a partial clear is kept as an operation of its own.
\<close>

definition clearRect :: "real \<Rightarrow> real \<Rightarrow> real \<Rightarrow> real \<Rightarrow> canvas \<Rightarrow> canvas" where
  "clearRect x y w h c =
     (if x = 0 \<and> y = 0 \<and> w = width c \<and> h = height c then c\<lparr>raster := []\<rparr>
      else emit (ClearRect x y w h) c)"

definition getImageData :: "canvas \<Rightarrow> imageData" where
  "getImageData c = \<lparr>imgWidth = width c, imgHeight = height c, imgData = raster c\<rparr>"

text \<open>
  \<open>DrawImage a op data x y w h\<close> is an image of content \<open>data\<close> drawn with its corner at
  \<open>(x, y)\<close> in size \<open>w\<close> by \<open>h\<close>, and \<open>PutImageData data w h\<close> an image of that size written
  at the origin. \<open>putImageData(img, 0, 0)\<close> overwrites the rectangle of the image, whatever the blend
  attributes are. An image of the canvas's own size replaces the whole raster.
\<close>

definition putImageData :: "imageData \<Rightarrow> canvas \<Rightarrow> canvas" where
  "putImageData img c =
     (if imgWidth img = width c \<and> imgHeight img = height c then c\<lparr>raster := imgData img\<rparr>
      else emit (PutImageData (imgData img) (imgWidth img) (imgHeight img)) c)"

definition drawImage :: "imageData \<Rightarrow> real \<Rightarrow> real \<Rightarrow> canvas \<Rightarrow> canvas" where
  "drawImage img x y c =
     emit (DrawImage (globalAlpha c) (globalCompositeOperation c) (imgData img) x y
       (imgWidth img) (imgHeight img)) c"

section \<open>DrawingCell.tsx\<close>

datatype backgroundType = Blank | Grid | Lines | Dots

datatype toolType = Pen | Eraser | LineTool | RectTool | CircleTool | ArrowTool

record point =
  px :: real
  py :: real
  pressure :: real

text \<open>
  A pointer event as the handlers read it: the client coordinates, the reported pressure and
  the bounding rectangle the canvas has on screen when the event is handled.
\<close>

record pointerEvent =
  clientX :: real
  clientY :: real
  evPressure :: real
  rectLeft :: real
  rectTop :: real
  rectWidth :: real
  rectHeight :: real

datatype jsError = TypeError

text \<open>
  The component's state: the props \<open>cell.dataUrl\<close>, \<open>cell.width\<close> and \<open>cell.height\<close>, the
  three canvas refs (\<open>None\<close> while the element is not mounted), the React state and the refs
  \<open>lastPoint\<close>, \<open>shapeStartPoint\<close>, \<open>historyRef\<close> and \<open>historyIndexRef\<close>.
\<close>

record drawingCell =
  cellDataUrl :: "imageData option"
  cellWidth :: real
  cellHeight :: real
  canvasRef :: "canvas option"
  bgCanvasRef :: "canvas option"
  previewCanvasRef :: "canvas option"
  isDrawing :: bool
  isEditing :: bool
  color :: colour
  brushSize :: real
  tool :: toolType
  fillShape :: bool
  background :: backgroundType
  isDarkMode :: bool
  lastPoint :: "point option"
  shapeStartPoint :: "point option"
  historyRef :: "imageData list"
  historyIndexRef :: int

definition bgColor :: "bool \<Rightarrow> colour" where
  "bgColor dark = (if dark then ''#1f2937'' else ''#ffffff'')"

definition gridColor :: "bool \<Rightarrow> colour" where
  "gridColor dark = (if dark then ''#374151'' else ''#e5e7eb'')"

definition eraserColor :: "drawingCell \<Rightarrow> colour" where
  "eraserColor s = bgColor (isDarkMode s)"

definition gridSize :: real where
  "gridSize = 20"

subsection \<open>drawBackground\<close>

text \<open>
  The source's loops all have the shape
  \<^verbatim>\<open>for (let v = gridSize; v < bound; v += gridSize) body(v)\<close>.
\<close>

function forGrid :: "real \<Rightarrow> real \<Rightarrow> (real \<Rightarrow> canvas \<Rightarrow> canvas) \<Rightarrow> canvas \<Rightarrow> canvas" where
  "forGrid v bound body c =
     (if v < bound then forGrid (v + gridSize) bound body (body v c) else c)"
  by pat_completeness auto
termination
proof (relation "measure (\<lambda>(v, bound, body, c). nat \<lceil>(bound - v) / 20\<rceil>)")
  show "wf (measure (\<lambda>(v, bound, body, c). nat \<lceil>(bound - v) / 20\<rceil>))" by simp
next
  fix v bound :: real and body :: "real \<Rightarrow> canvas \<Rightarrow> canvas" and c :: canvas
  assume "v < bound"
  then have "0 < (bound - v) / 20" by simp
  then have pos: "0 < \<lceil>(bound - v) / 20\<rceil>" by (simp add: ceiling_less_iff less_ceiling_iff)
  have e: "(bound - (v + gridSize)) / 20 = (bound - v) / 20 - 1"
    by (simp add: gridSize_def field_simps)
  have "\<lceil>(bound - (v + gridSize)) / 20\<rceil> = \<lceil>(bound - v) / 20\<rceil> - 1"
    unfolding e by (rule ceiling_diff_one)
  with pos show "((v + gridSize, bound, body, body v c), (v, bound, body, c))
       \<in> measure (\<lambda>(v, bound, body, c). nat \<lceil>(bound - v) / 20\<rceil>)"
    by simp
qed

declare forGrid.simps [simp del]

definition vLine :: "real \<Rightarrow> real \<Rightarrow> canvas \<Rightarrow> canvas" where
  "vLine h x ctx = stroke (lineTo x h (moveTo x 0 (beginPath ctx)))"

definition hLine :: "real \<Rightarrow> real \<Rightarrow> canvas \<Rightarrow> canvas" where
  "hLine w y ctx = stroke (lineTo w y (moveTo 0 y (beginPath ctx)))"

definition dot :: "real \<Rightarrow> real \<Rightarrow> canvas \<Rightarrow> canvas" where
  "dot x y ctx = fill (arc x y 1.5 0 (pi * 2) (beginPath ctx))"

definition drawBackground ::
  "canvas \<Rightarrow> real \<Rightarrow> real \<Rightarrow> backgroundType \<Rightarrow> bool \<Rightarrow> canvas" where
  "drawBackground ctx w h bgType dark =
     (let bg = bgColor dark;
          grid = gridColor dark;
          c1 = fillRect 0 0 w h (ctx\<lparr>fillStyle := bg\<rparr>)
      in case bgType of
           Grid \<Rightarrow>
             forGrid gridSize h (hLine w)
               (forGrid gridSize w (vLine h) (c1\<lparr>strokeStyle := grid, lineWidth := 1\<rparr>))
         | Lines \<Rightarrow> forGrid gridSize h (hLine w) (c1\<lparr>strokeStyle := grid, lineWidth := 1\<rparr>)
         | Dots \<Rightarrow> forGrid gridSize w (\<lambda>x. forGrid gridSize h (dot x)) (c1\<lparr>fillStyle := grid\<rparr>)
         | Blank \<Rightarrow> c1)"

subsection \<open>The history of ink snapshots\<close>

text \<open>
  \<open>slice0 e xs\<close> is JavaScript's \<open>xs.slice(0, e)\<close>: a negative end counts from the end
  of the array and an end beyond the length is the length.
\<close>

definition slice0 :: "int \<Rightarrow> 'a list \<Rightarrow> 'a list" where
  "slice0 e xs = (if e < 0 then take (nat (int (length xs) + e)) xs else take (nat e) xs)"

text \<open>
  The body of \<open>saveToHistory\<close> once the snapshot is taken (lines 116 to 123 of
  DrawingCell.tsx, and the same lines in PDFCell): truncate after the cursor, push, move the
  cursor to the last entry, and drop the first entry when more than 50 are held.
\<close>

definition pushHistory :: "'a \<Rightarrow> 'a list \<times> int \<Rightarrow> 'a list \<times> int" where
  "pushHistory imageData hi =
     (let h1 = slice0 (snd hi + 1) (fst hi);
          h2 = h1 @ [imageData];
          i2 = int (length h2) - 1
      in if length h2 > 50 then (tl h2, i2 - 1) else (h2, i2))"

definition saveToHistory :: "drawingCell \<Rightarrow> drawingCell" where
  "saveToHistory s =
     (case canvasRef s of
        None \<Rightarrow> s
      | Some canvas \<Rightarrow>
          (let hi = pushHistory (getImageData canvas) (historyRef s, historyIndexRef s)
           in s\<lparr>historyRef := fst hi, historyIndexRef := snd hi\<rparr>))"

text \<open>
  \<open>historyRef.current[i]\<close> is \<open>undefined\<close> outside the array, and \<open>putImageData\<close> then
  throws a TypeError; the cursor has already moved when that happens.
\<close>

definition restoreEntry :: "drawingCell \<Rightarrow> jsError + drawingCell" where
  "restoreEntry s =
     (case canvasRef s of
        None \<Rightarrow> Inr s
      | Some canvas \<Rightarrow>
          (let i = historyIndexRef s
           in if 0 \<le> i \<and> i < int (length (historyRef s))
              then Inr (s\<lparr>canvasRef := Some (putImageData (historyRef s ! nat i) canvas)\<rparr>)
              else Inl TypeError))"

definition undo :: "drawingCell \<Rightarrow> jsError + drawingCell" where
  "undo s =
     (if historyIndexRef s > 0
      then restoreEntry (s\<lparr>historyIndexRef := historyIndexRef s - 1\<rparr>)
      else Inr s)"

definition redo :: "drawingCell \<Rightarrow> jsError + drawingCell" where
  "redo s =
     (if historyIndexRef s < int (length (historyRef s)) - 1
      then restoreEntry (s\<lparr>historyIndexRef := historyIndexRef s + 1\<rparr>)
      else Inr s)"

subsection \<open>Mounting and the effects\<close>

text \<open>
  The first render: the three canvases are created with the cell's size, and editing starts
  only for a cell without a saved image.
\<close>

definition mount :: "imageData option \<Rightarrow> real \<Rightarrow> real \<Rightarrow> drawingCell" where
  "mount dataUrl w h =
     \<lparr>cellDataUrl = dataUrl, cellWidth = w, cellHeight = h,
      canvasRef = Some (newCanvas w h), bgCanvasRef = Some (newCanvas w h),
      previewCanvasRef = Some (newCanvas w h),
      isDrawing = False, isEditing = (dataUrl = None), color = ''#000000'', brushSize = 3,
      tool = Pen, fillShape = False, background = Blank, isDarkMode = False,
      lastPoint = None, shapeStartPoint = None, historyRef = [], historyIndexRef = - 1\<rparr>"

text \<open>
  The effect "Initialize canvas". With a saved image the drawing happens later, in the
  image's \<open>onload\<close> handler, which is \<open>initOnload\<close>.
\<close>

definition initEffect :: "drawingCell \<Rightarrow> drawingCell" where
  "initEffect s =
     (case (canvasRef s, bgCanvasRef s) of
        (Some canvas, Some bgCanvas) \<Rightarrow>
          (let s1 = s\<lparr>bgCanvasRef := Some (drawBackground bgCanvas (width bgCanvas)
                         (height bgCanvas) (background s) (isDarkMode s))\<rparr>
           in case cellDataUrl s of
                Some img \<Rightarrow> s1
              | None \<Rightarrow>
                  saveToHistory (s1\<lparr>canvasRef := Some (drawBackground canvas (width canvas)
                    (height canvas) (background s) (isDarkMode s))\<rparr>))
      | _ \<Rightarrow> s)"

definition initOnload :: "imageData \<Rightarrow> drawingCell \<Rightarrow> drawingCell" where
  "initOnload img s =
     (case canvasRef s of
        None \<Rightarrow> saveToHistory s
      | Some canvas \<Rightarrow> saveToHistory (s\<lparr>canvasRef := Some (drawImage img 0 0 canvas)\<rparr>))"

definition bgEffect :: "drawingCell \<Rightarrow> drawingCell" where
  "bgEffect s =
     (case bgCanvasRef s of
        None \<Rightarrow> s
      | Some bgCanvas \<Rightarrow>
          s\<lparr>bgCanvasRef := Some (drawBackground bgCanvas (width bgCanvas) (height bgCanvas)
               (background s) (isDarkMode s))\<rparr>)"

definition colorEffect :: "drawingCell \<Rightarrow> drawingCell" where
  "colorEffect s =
     (if isDarkMode s \<and> color s = ''#000000'' then s\<lparr>color := ''#ffffff''\<rparr>
      else if \<not> isDarkMode s \<and> color s = ''#ffffff'' then s\<lparr>color := ''#000000''\<rparr>
      else s)"

definition openCell :: "imageData option \<Rightarrow> real \<Rightarrow> real \<Rightarrow> drawingCell" where
  "openCell dataUrl w h = colorEffect (bgEffect (initEffect (mount dataUrl w h)))"

subsection \<open>Drawing\<close>

definition getCanvasPoint :: "pointerEvent \<Rightarrow> drawingCell \<Rightarrow> jsError + point" where
  "getCanvasPoint e s =
     (case canvasRef s of
        None \<Rightarrow> Inl TypeError
      | Some canvas \<Rightarrow>
          (let scaleX = width canvas / rectWidth e;
               scaleY = height canvas / rectHeight e
           in Inr \<lparr>px = (clientX e - rectLeft e) * scaleX,
                   py = (clientY e - rectTop e) * scaleY,
                   pressure = (if evPressure e = 0 then 0.5 else evPressure e)\<rparr>))"

definition drawLine :: "drawingCell \<Rightarrow> point \<Rightarrow> point \<Rightarrow> canvas \<Rightarrow> canvas" where
  "drawLine s from to ctx =
     (let p = (pressure from + pressure to) / 2;
          size = (if tool s = Eraser then brushSize s * 8 else brushSize s * (0.5 + p));
          c1 = lineTo (px to) (py to) (moveTo (px from) (py from) (beginPath ctx))
      in stroke (c1\<lparr>strokeStyle := (if tool s = Eraser then eraserColor s else color s),
                     lineWidth := size, lineCap := Round, lineJoin := RoundJoin\<rparr>))"

definition isShapeTool :: "toolType \<Rightarrow> bool" where
  "isShapeTool t = (t \<in> set [LineTool, RectTool, CircleTool, ArrowTool])"

text \<open>\<open>Math.atan2 y x\<close> is the argument of the complex number \<open>x + iy\<close>.\<close>

definition atan2 :: "real \<Rightarrow> real \<Rightarrow> real" where
  "atan2 y x = Arg (Complex x y)"

definition drawShape ::
  "drawingCell \<Rightarrow> canvas \<Rightarrow> point \<Rightarrow> point \<Rightarrow> toolType \<Rightarrow> bool \<Rightarrow> canvas" where
  "drawShape s ctx start end shapeType preview =
     (let c0 = (beginPath ctx)\<lparr>strokeStyle := color s, lineWidth := brushSize s,
                 lineCap := Round, lineJoin := RoundJoin\<rparr>;
          c1 = (if fillShape s \<and> \<not> preview then c0\<lparr>fillStyle := color s\<rparr> else c0)
      in case shapeType of
           LineTool \<Rightarrow> stroke (lineTo (px end) (py end) (moveTo (px start) (py start) c1))
         | ArrowTool \<Rightarrow>
             (let c2 = stroke (lineTo (px end) (py end) (moveTo (px start) (py start) c1));
                  angle = atan2 (py end - py start) (px end - px start);
                  headLength = max 10 (brushSize s * 4);
                  c3 = moveTo (px end) (py end) (beginPath c2);
                  c4 = lineTo (px end - headLength * cos (angle - pi / 6))
                         (py end - headLength * sin (angle - pi / 6)) c3;
                  c5 = moveTo (px end) (py end) c4;
                  c6 = lineTo (px end - headLength * cos (angle + pi / 6))
                         (py end - headLength * sin (angle + pi / 6)) c5
              in stroke c6)
         | RectTool \<Rightarrow>
             (let rectW = px end - px start;
                  rectH = py end - py start;
                  c2 = (if fillShape s \<and> \<not> preview
                        then fillRect (px start) (py start) rectW rectH c1 else c1)
              in strokeRect (px start) (py start) rectW rectH c2)
         | CircleTool \<Rightarrow>
             (let radiusX = \<bar>px end - px start\<bar> / 2;
                  radiusY = \<bar>py end - py start\<bar> / 2;
                  centerX = px start + (px end - px start) / 2;
                  centerY = py start + (py end - py start) / 2;
                  c2 = ellipse centerX centerY radiusX radiusY 0 0 (pi * 2) c1;
                  c3 = (if fillShape s \<and> \<not> preview then fill c2 else c2)
              in stroke c3)
         | _ \<Rightarrow> c1)"

definition clearPreviewCanvas :: "drawingCell \<Rightarrow> drawingCell" where
  "clearPreviewCanvas s =
     (case previewCanvasRef s of
        None \<Rightarrow> s
      | Some previewCanvas \<Rightarrow>
          s\<lparr>previewCanvasRef :=
               Some (clearRect 0 0 (width previewCanvas) (height previewCanvas) previewCanvas)\<rparr>)"

subsection \<open>The pointer handlers\<close>

definition handlePointerDown :: "pointerEvent \<Rightarrow> drawingCell \<Rightarrow> jsError + drawingCell" where
  "handlePointerDown e s =
     (if \<not> isEditing s then Inr s
      else case canvasRef s of
             None \<Rightarrow> Inr s
           | Some canvas \<Rightarrow>
               (case getCanvasPoint e s of
                  Inl err \<Rightarrow> Inl err
                | Inr p \<Rightarrow>
                    (let s1 = s\<lparr>isDrawing := True, lastPoint := Some p\<rparr>
                     in Inr (if isShapeTool (tool s) then s1\<lparr>shapeStartPoint := Some p\<rparr>
                             else s1))))"

definition handlePointerMove :: "pointerEvent \<Rightarrow> drawingCell \<Rightarrow> jsError + drawingCell" where
  "handlePointerMove e s =
     (if \<not> isDrawing s \<or> \<not> isEditing s then Inr s
      else case getCanvasPoint e s of
             Inl err \<Rightarrow> Inl err
           | Inr currentPoint \<Rightarrow>
               (if isShapeTool (tool s)
                then (case (previewCanvasRef s, shapeStartPoint s) of
                        (Some previewCanvas, Some start) \<Rightarrow>
                          (case previewCanvasRef (clearPreviewCanvas s) of
                             None \<Rightarrow> Inr s
                           | Some cleared \<Rightarrow>
                               Inr (s\<lparr>previewCanvasRef :=
                                        Some (drawShape s cleared start currentPoint (tool s)
                                                True)\<rparr>))
                      | _ \<Rightarrow> Inr s)
                else (case (canvasRef s, lastPoint s) of
                        (Some canvas, Some lp) \<Rightarrow>
                          Inr (s\<lparr>canvasRef := Some (drawLine s lp currentPoint canvas),
                                 lastPoint := Some currentPoint\<rparr>)
                      | _ \<Rightarrow> Inr s)))"

definition handlePointerUp :: "pointerEvent \<Rightarrow> drawingCell \<Rightarrow> jsError + drawingCell" where
  "handlePointerUp e s =
     (if \<not> isDrawing s then Inr s
      else case (if isShapeTool (tool s) \<and> shapeStartPoint s \<noteq> None
                 then (case (canvasRef s, shapeStartPoint s) of
                         (Some canvas, Some start) \<Rightarrow>
                           (case getCanvasPoint e s of
                              Inl err \<Rightarrow> Inl err
                            | Inr endPoint \<Rightarrow>
                                Inr ((clearPreviewCanvas
                                       (s\<lparr>canvasRef := Some (drawShape s canvas start endPoint
                                                                (tool s) False)\<rparr>))
                                     \<lparr>shapeStartPoint := None\<rparr>))
                       | _ \<Rightarrow> Inr ((clearPreviewCanvas s)\<lparr>shapeStartPoint := None\<rparr>))
                 else Inr s) of
             Inl err \<Rightarrow> Inl err
           | Inr s1 \<Rightarrow> Inr (saveToHistory (s1\<lparr>isDrawing := False, lastPoint := None\<rparr>)))"

definition handleClear :: "drawingCell \<Rightarrow> drawingCell" where
  "handleClear s =
     (case canvasRef s of
        None \<Rightarrow> s
      | Some canvas \<Rightarrow>
          saveToHistory (s\<lparr>canvasRef := Some (drawBackground canvas (width canvas)
            (height canvas) (background s) (isDarkMode s))\<rparr>))"

subsection \<open>Events\<close>

text \<open>
  What the user and the browser can do to a mounted cell. \<open>onPointerLeave\<close> is bound to
  \<open>handlePointerUp\<close>; the toolbar buttons set the state they name; changing the background
  or the theme re-runs the effects that depend on them, in the order they are declared.
\<close>

datatype uiEvent =
    PointerDown pointerEvent
  | PointerMove pointerEvent
  | PointerUp pointerEvent
  | PointerLeave pointerEvent
  | UndoClick
  | RedoClick
  | ClearClick
  | EditClick
  | SetTool toolType
  | SetColor colour
  | SetBrushSize real
  | ToggleFill
  | SetBackground backgroundType
  | ThemeChanged bool
  | ImageLoaded imageData

definition dispatch :: "uiEvent \<Rightarrow> drawingCell \<Rightarrow> jsError + drawingCell" where
  "dispatch ev s =
     (case ev of
        PointerDown e \<Rightarrow> handlePointerDown e s
      | PointerMove e \<Rightarrow> handlePointerMove e s
      | PointerUp e \<Rightarrow> handlePointerUp e s
      | PointerLeave e \<Rightarrow> handlePointerUp e s
      | UndoClick \<Rightarrow> undo s
      | RedoClick \<Rightarrow> redo s
      | ClearClick \<Rightarrow> Inr (handleClear s)
      | EditClick \<Rightarrow> Inr (s\<lparr>isEditing := True\<rparr>)
      | SetTool t \<Rightarrow> Inr (s\<lparr>tool := t\<rparr>)
      | SetColor c \<Rightarrow> Inr (colorEffect (s\<lparr>color := c\<rparr>))
      | SetBrushSize b \<Rightarrow> Inr (s\<lparr>brushSize := b\<rparr>)
      | ToggleFill \<Rightarrow> Inr (s\<lparr>fillShape := \<not> fillShape s\<rparr>)
      | SetBackground b \<Rightarrow>
          Inr (if b = background s then s else bgEffect (initEffect (s\<lparr>background := b\<rparr>)))
      | ThemeChanged d \<Rightarrow>
          Inr (if d = isDarkMode s then s
               else colorEffect (bgEffect (initEffect (s\<lparr>isDarkMode := d\<rparr>))))
      | ImageLoaded img \<Rightarrow> Inr (initOnload img s))"

fun run :: "uiEvent list \<Rightarrow> drawingCell \<Rightarrow> jsError + drawingCell" where
  "run [] s = Inr s"
| "run (ev # evs) s = (case dispatch ev s of Inl err \<Rightarrow> Inl err | Inr s1 \<Rightarrow> run evs s1)"


text \<open>
  A completed gesture: the tool settings chosen for it, one pointer-down, any number of
  pointer-moves, and one pointer-up or pointer-leave.
\<close>

record gesture =
  gTool :: toolType
  gColor :: colour
  gBrushSize :: real
  gFill :: bool
  gDown :: pointerEvent
  gMoves :: "pointerEvent list"
  gUp :: pointerEvent
  gLeave :: bool

definition gestureEvents :: "gesture \<Rightarrow> uiEvent list" where
  "gestureEvents g =
     [PointerDown (gDown g)] @ map PointerMove (gMoves g)
       @ [if gLeave g then PointerLeave (gUp g) else PointerUp (gUp g)]"

definition applySettings :: "gesture \<Rightarrow> drawingCell \<Rightarrow> drawingCell" where
  "applySettings g s =
     colorEffect (s\<lparr>tool := gTool g, color := gColor g, brushSize := gBrushSize g,
                    fillShape := gFill g\<rparr>)"

definition doGesture :: "gesture \<Rightarrow> drawingCell \<Rightarrow> jsError + drawingCell" where
  "doGesture g s = run (gestureEvents g) (applySettings g s)"


text \<open>The ink layer's pixels: the raster of the main canvas.\<close>

definition ink :: "drawingCell \<Rightarrow> raster option" where
  "ink s = map_option raster (canvasRef s)"

section \<open>MiniDrawing\<close>

text \<open>
  The compact drawing cell of the notes column. It has the three canvases, the tools and the
  background patterns of the drawing cell and a height the user can drag, and it declares no
  history: there is no \<open>historyRef\<close>, \<open>saveToHistory\<close>, \<open>undo\<close> or \<open>redo\<close> in the component.
  Its points carry no pressure.
\<close>

record miniPoint =
  mx :: real
  my :: real

record miniDrawing =
  miniDataUrl :: "imageData option"
  miniCanvasRef :: "canvas option"
  miniBgCanvasRef :: "canvas option"
  miniPreviewCanvasRef :: "canvas option"
  miniIsDrawing :: bool
  miniIsEditing :: bool
  miniIsResizing :: bool
  miniColor :: colour
  miniBrushSize :: real
  miniTool :: toolType
  miniFillShape :: bool
  canvasHeight :: real
  miniBackground :: backgroundType
  miniLastPoint :: "miniPoint option"
  miniShapeStartPoint :: "miniPoint option"
  resizeStartY :: real
  resizeStartHeight :: real

definition CANVAS_WIDTH :: real where
  "CANVAS_WIDTH = 400"

definition miniDrawBackground :: "canvas \<Rightarrow> real \<Rightarrow> real \<Rightarrow> backgroundType \<Rightarrow> canvas" where
  "miniDrawBackground ctx w h bgType =
     (let c1 = fillRect 0 0 w h (ctx\<lparr>fillStyle := ''#ffffff''\<rparr>);
          c2 = c1\<lparr>strokeStyle := ''#e5e7eb'', fillStyle := ''#e5e7eb'', lineWidth := 1\<rparr>
      in case bgType of
           Grid \<Rightarrow> forGrid gridSize h (hLine w) (forGrid gridSize w (vLine h) c2)
         | Lines \<Rightarrow> forGrid gridSize h (hLine w) c2
         | Dots \<Rightarrow> forGrid gridSize w (\<lambda>x. forGrid gridSize h (dot x)) c2
         | Blank \<Rightarrow> c2)"

text \<open>
  The first render. \<open>cell.height || 150\<close> and \<open>cell.background || 'blank'\<close> give the initial
  height and pattern; a height of 0 counts as missing.
\<close>

definition miniMount :: "imageData option \<Rightarrow> real \<Rightarrow> backgroundType \<Rightarrow> miniDrawing" where
  "miniMount dataUrl cellH cellBg =
     (let h = (if cellH = 0 then 150 else cellH)
      in \<lparr>miniDataUrl = dataUrl,
          miniCanvasRef = Some (newCanvas CANVAS_WIDTH h),
          miniBgCanvasRef = Some (newCanvas CANVAS_WIDTH h),
          miniPreviewCanvasRef = Some (newCanvas CANVAS_WIDTH h),
          miniIsDrawing = False, miniIsEditing = (dataUrl = None), miniIsResizing = False,
          miniColor = ''#000000'', miniBrushSize = 2, miniTool = Pen, miniFillShape = False,
          canvasHeight = h, miniBackground = cellBg,
          miniLastPoint = None, miniShapeStartPoint = None,
          resizeStartY = 0, resizeStartHeight = 0\<rparr>)"

definition miniInitEffect :: "miniDrawing \<Rightarrow> miniDrawing" where
  "miniInitEffect s =
     (case (miniCanvasRef s, miniBgCanvasRef s) of
        (Some canvas, Some bgCanvas) \<Rightarrow>
          (let s1 = s\<lparr>miniBgCanvasRef := Some (miniDrawBackground bgCanvas CANVAS_WIDTH
                         (canvasHeight s) (miniBackground s))\<rparr>
           in case miniDataUrl s of
                Some img \<Rightarrow> s1
              | None \<Rightarrow>
                  s1\<lparr>miniCanvasRef := Some (miniDrawBackground canvas CANVAS_WIDTH
                        (canvasHeight s) (miniBackground s))\<rparr>)
      | _ \<Rightarrow> s)"

definition miniInitOnload :: "imageData \<Rightarrow> miniDrawing \<Rightarrow> miniDrawing" where
  "miniInitOnload img s =
     (case miniCanvasRef s of
        None \<Rightarrow> s
      | Some canvas \<Rightarrow>
          s\<lparr>miniCanvasRef := Some (drawImage img 0 0 (miniDrawBackground canvas CANVAS_WIDTH
                (canvasHeight s) (miniBackground s)))\<rparr>)"

definition miniBgEffect :: "miniDrawing \<Rightarrow> miniDrawing" where
  "miniBgEffect s =
     (case miniBgCanvasRef s of
        None \<Rightarrow> s
      | Some bgCanvas \<Rightarrow>
          s\<lparr>miniBgCanvasRef := Some (miniDrawBackground bgCanvas CANVAS_WIDTH (canvasHeight s)
                (miniBackground s))\<rparr>)"

definition miniOpen :: "imageData option \<Rightarrow> real \<Rightarrow> backgroundType \<Rightarrow> miniDrawing" where
  "miniOpen dataUrl cellH cellBg =
     miniBgEffect (miniInitEffect (miniMount dataUrl cellH cellBg))"

definition miniGetCanvasPoint :: "pointerEvent \<Rightarrow> miniDrawing \<Rightarrow> jsError + miniPoint" where
  "miniGetCanvasPoint e s =
     (case miniCanvasRef s of
        None \<Rightarrow> Inl TypeError
      | Some canvas \<Rightarrow>
          Inr \<lparr>mx = (clientX e - rectLeft e) * (width canvas / rectWidth e),
                my = (clientY e - rectTop e) * (height canvas / rectHeight e)\<rparr>)"

definition miniDrawShape ::
  "miniDrawing \<Rightarrow> canvas \<Rightarrow> miniPoint \<Rightarrow> miniPoint \<Rightarrow> toolType \<Rightarrow> bool \<Rightarrow> canvas" where
  "miniDrawShape s ctx start end shapeType preview =
     (let c0 = (beginPath ctx)\<lparr>strokeStyle := miniColor s, lineWidth := miniBrushSize s,
                 lineCap := Round\<rparr>;
          c1 = (if miniFillShape s \<and> \<not> preview then c0\<lparr>fillStyle := miniColor s\<rparr> else c0)
      in case shapeType of
           LineTool \<Rightarrow> stroke (lineTo (mx end) (my end) (moveTo (mx start) (my start) c1))
         | ArrowTool \<Rightarrow>
             (let c2 = stroke (lineTo (mx end) (my end) (moveTo (mx start) (my start) c1));
                  angle = atan2 (my end - my start) (mx end - mx start);
                  headLen = max 8 (miniBrushSize s * 3);
                  c3 = moveTo (mx end) (my end) (beginPath c2);
                  c4 = lineTo (mx end - headLen * cos (angle - pi / 6))
                         (my end - headLen * sin (angle - pi / 6)) c3;
                  c5 = moveTo (mx end) (my end) c4;
                  c6 = lineTo (mx end - headLen * cos (angle + pi / 6))
                         (my end - headLen * sin (angle + pi / 6)) c5
              in stroke c6)
         | RectTool \<Rightarrow>
             (let c2 = (if miniFillShape s \<and> \<not> preview
                        then fillRect (mx start) (my start) (mx end - mx start)
                               (my end - my start) c1
                        else c1)
              in strokeRect (mx start) (my start) (mx end - mx start) (my end - my start) c2)
         | CircleTool \<Rightarrow>
             (let rx = \<bar>mx end - mx start\<bar> / 2;
                  ry = \<bar>my end - my start\<bar> / 2;
                  cx = mx start + (mx end - mx start) / 2;
                  cy = my start + (my end - my start) / 2;
                  c2 = ellipse cx cy rx ry 0 0 (pi * 2) c1;
                  c3 = (if miniFillShape s \<and> \<not> preview then fill c2 else c2)
              in stroke c3)
         | _ \<Rightarrow> c1)"

definition clearPreview :: "miniDrawing \<Rightarrow> miniDrawing" where
  "clearPreview s =
     (case miniPreviewCanvasRef s of
        None \<Rightarrow> s
      | Some previewCanvas \<Rightarrow>
          s\<lparr>miniPreviewCanvasRef :=
               Some (clearRect 0 0 (width previewCanvas) (height previewCanvas) previewCanvas)\<rparr>)"

definition miniHandlePointerDown :: "pointerEvent \<Rightarrow> miniDrawing \<Rightarrow> jsError + miniDrawing" where
  "miniHandlePointerDown e s =
     (if \<not> miniIsEditing s then Inr s
      else case miniGetCanvasPoint e s of
             Inl err \<Rightarrow> Inl err
           | Inr p \<Rightarrow>
               (let s1 = s\<lparr>miniIsDrawing := True, miniLastPoint := Some p\<rparr>
                in Inr (if isShapeTool (miniTool s) then s1\<lparr>miniShapeStartPoint := Some p\<rparr>
                        else s1)))"

definition miniHandlePointerMove :: "pointerEvent \<Rightarrow> miniDrawing \<Rightarrow> jsError + miniDrawing" where
  "miniHandlePointerMove e s =
     (if \<not> miniIsDrawing s \<or> \<not> miniIsEditing s then Inr s
      else case miniGetCanvasPoint e s of
             Inl err \<Rightarrow> Inl err
           | Inr currentPoint \<Rightarrow>
               (if isShapeTool (miniTool s)
                then (case (miniPreviewCanvasRef (clearPreview s), miniShapeStartPoint s) of
                        (Some cleared, Some start) \<Rightarrow>
                          Inr (s\<lparr>miniPreviewCanvasRef :=
                                   Some (miniDrawShape s cleared start currentPoint (miniTool s)
                                           True)\<rparr>)
                      | _ \<Rightarrow> Inr s)
                else (case (miniCanvasRef s, miniLastPoint s) of
                        (Some ctx, Some lp) \<Rightarrow>
                          (let c1 = lineTo (mx currentPoint) (my currentPoint)
                                      (moveTo (mx lp) (my lp) (beginPath ctx));
                               c2 = c1\<lparr>strokeStyle := (if miniTool s = Eraser then ''#ffffff''
                                                         else miniColor s),
                                       lineWidth := (if miniTool s = Eraser
                                                     then miniBrushSize s * 8
                                                     else miniBrushSize s),
                                       lineCap := Round\<rparr>
                           in Inr (s\<lparr>miniCanvasRef := Some (stroke c2),
                                      miniLastPoint := Some currentPoint\<rparr>))
                      | _ \<Rightarrow> Inr s)))"

definition miniHandlePointerUp :: "pointerEvent \<Rightarrow> miniDrawing \<Rightarrow> jsError + miniDrawing" where
  "miniHandlePointerUp e s =
     (if \<not> miniIsDrawing s then Inr s
      else case (if isShapeTool (miniTool s) \<and> miniShapeStartPoint s \<noteq> None
                 then (case (miniCanvasRef s, miniShapeStartPoint s) of
                         (Some ctx, Some start) \<Rightarrow>
                           (case miniGetCanvasPoint e s of
                              Inl err \<Rightarrow> Inl err
                            | Inr endPoint \<Rightarrow>
                                Inr ((clearPreview
                                       (s\<lparr>miniCanvasRef := Some (miniDrawShape s ctx start
                                                                    endPoint (miniTool s)
                                                                    False)\<rparr>))
                                     \<lparr>miniShapeStartPoint := None\<rparr>))
                       | _ \<Rightarrow> Inr ((clearPreview s)\<lparr>miniShapeStartPoint := None\<rparr>))
                 else Inr s) of
             Inl err \<Rightarrow> Inl err
           | Inr s1 \<Rightarrow> Inr (s1\<lparr>miniIsDrawing := False, miniLastPoint := None\<rparr>))"

definition miniHandleClear :: "miniDrawing \<Rightarrow> miniDrawing" where
  "miniHandleClear s =
     (case miniCanvasRef s of
        None \<Rightarrow> s
      | Some ctx \<Rightarrow>
          s\<lparr>miniCanvasRef := Some (miniDrawBackground ctx CANVAS_WIDTH (canvasHeight s)
               (miniBackground s))\<rparr>)"

subsection \<open>Dragging the height\<close>

text \<open>
  A new \<open>canvasHeight\<close> reaches the three canvas elements as their \<open>height\<close> attribute, which
  resets them, and re-runs the two effects that depend on it.
\<close>

definition setCanvasHeight :: "real \<Rightarrow> miniDrawing \<Rightarrow> miniDrawing" where
  "setCanvasHeight h s =
     (if h = canvasHeight s then s
      else miniBgEffect (miniInitEffect
             (s\<lparr>canvasHeight := h,
                miniCanvasRef := map_option (\<lambda>c. newCanvas (width c) h) (miniCanvasRef s),
                miniBgCanvasRef := map_option (\<lambda>c. newCanvas (width c) h) (miniBgCanvasRef s),
                miniPreviewCanvasRef :=
                  map_option (\<lambda>c. newCanvas (width c) h) (miniPreviewCanvasRef s)\<rparr>)))"

definition handleResizeStart :: "real \<Rightarrow> miniDrawing \<Rightarrow> miniDrawing" where
  "handleResizeStart y s =
     s\<lparr>miniIsResizing := True, resizeStartY := y, resizeStartHeight := canvasHeight s\<rparr>"

definition handleMouseMove :: "real \<Rightarrow> miniDrawing \<Rightarrow> miniDrawing" where
  "handleMouseMove y s =
     (let deltaY = y - resizeStartY s;
          newHeight = max 100 (min 600 (resizeStartHeight s + deltaY))
      in setCanvasHeight newHeight s)"

definition handleMouseUp :: "miniDrawing \<Rightarrow> miniDrawing" where
  "handleMouseUp s = s\<lparr>miniIsResizing := False\<rparr>"

text \<open>
  The resize handle is rendered in edit mode only, and the window listeners for
  \<open>mousemove\<close> and \<open>mouseup\<close> are attached only while \<open>isResizing\<close> holds.
\<close>

datatype miniEvent =
    MiniPointerDown pointerEvent
  | MiniPointerMove pointerEvent
  | MiniPointerUp pointerEvent
  | MiniPointerLeave pointerEvent
  | MiniClearClick
  | MiniSetTool toolType
  | MiniSetColor colour
  | MiniSetBrushSize real
  | MiniToggleFill
  | MiniResizeStart real
  | MiniMouseMove real
  | MiniMouseUp
  | MiniImageLoaded imageData

definition miniDispatch :: "miniEvent \<Rightarrow> miniDrawing \<Rightarrow> jsError + miniDrawing" where
  "miniDispatch ev s =
     (case ev of
        MiniPointerDown e \<Rightarrow> miniHandlePointerDown e s
      | MiniPointerMove e \<Rightarrow> miniHandlePointerMove e s
      | MiniPointerUp e \<Rightarrow> miniHandlePointerUp e s
      | MiniPointerLeave e \<Rightarrow> miniHandlePointerUp e s
      | MiniClearClick \<Rightarrow> Inr (miniHandleClear s)
      | MiniSetTool t \<Rightarrow> Inr (s\<lparr>miniTool := t\<rparr>)
      | MiniSetColor c \<Rightarrow> Inr (s\<lparr>miniColor := c\<rparr>)
      | MiniSetBrushSize b \<Rightarrow> Inr (s\<lparr>miniBrushSize := b\<rparr>)
      | MiniToggleFill \<Rightarrow> Inr (s\<lparr>miniFillShape := \<not> miniFillShape s\<rparr>)
      | MiniResizeStart y \<Rightarrow> Inr (if miniIsEditing s then handleResizeStart y s else s)
      | MiniMouseMove y \<Rightarrow> Inr (if miniIsResizing s then handleMouseMove y s else s)
      | MiniMouseUp \<Rightarrow> Inr (if miniIsResizing s then handleMouseUp s else s)
      | MiniImageLoaded img \<Rightarrow> Inr (miniInitOnload img s))"

fun miniRun :: "miniEvent list \<Rightarrow> miniDrawing \<Rightarrow> jsError + miniDrawing" where
  "miniRun [] s = Inr s"
| "miniRun (ev # evs) s =
     (case miniDispatch ev s of Inl err \<Rightarrow> Inl err | Inr s1 \<Rightarrow> miniRun evs s1)"

section \<open>PDFCell\<close>

text \<open>
  The PDF annotation cell: a canvas for the page (the base layer) and a drawing canvas over
  it (the ink layer), with the history code of the drawing cell repeated.
\<close>

datatype pdfTool = PdfPen | PdfEraser | Highlighter

record pdfPage =
  pageNumber :: "nat option"
  drawingDataUrl :: "imageData option"
  isCustomPage :: bool
  customDrawingDataUrl :: "imageData option"

text \<open>
  PDF.js is an external collaborator. A document is the list of its pages, each with its
  size at scale 1 and the picture a completed render leaves on the canvas. \<open>getPage\<close> and
  \<open>render\<close> are asynchronous: the component's state holds the requests that wait for
  \<open>getPage\<close> and the render tasks PDF.js has been given. A task is cancelled by its
  \<open>cancel()\<close>; its promise then rejects with \<open>RenderingCancelledException\<close> and nothing
  more is painted. A task that is not cancelled paints its page and resolves.
\<close>

record pageProxy =
  viewWidth :: real
  viewHeight :: real
  pageContent :: raster

record renderTask =
  taskPage :: pdfPage
  taskContent :: raster
  taskWidth :: real
  taskHeight :: real
  cancelled :: bool
  settled :: bool

record pdfCell =
  pages :: "pdfPage list"
  pdfDoc :: "pageProxy list option"
  currentPageIndex :: nat
  pdfCanvasRef :: "canvas option"
  drawingCanvasRef :: "canvas option"
  renderTaskRef :: "nat option"
  renderTasks :: "renderTask list"
  getPageWaiting :: "pdfPage list"
  overlayWaiting :: "imageData list"
  consoleErrors :: "string list"
  pdfIsDrawing :: bool
  isEditingDrawing :: bool
  pdfColor :: colour
  pdfBrushSize :: real
  pdfToolState :: pdfTool
  pdfIsDarkMode :: bool
  customPageBackground :: backgroundType
  pdfLastPoint :: "point option"
  pdfHistoryRef :: "imageData list"
  pdfHistoryIndexRef :: int

definition currentPage :: "pdfCell \<Rightarrow> pdfPage option" where
  "currentPage s =
     (if currentPageIndex s < length (pages s) then Some (pages s ! currentPageIndex s)
      else None)"

subsection \<open>History\<close>

definition pdfSaveToHistory :: "pdfCell \<Rightarrow> pdfCell" where
  "pdfSaveToHistory s =
     (case drawingCanvasRef s of
        None \<Rightarrow> s
      | Some canvas \<Rightarrow>
          (let hi = pushHistory (getImageData canvas) (pdfHistoryRef s, pdfHistoryIndexRef s)
           in s\<lparr>pdfHistoryRef := fst hi, pdfHistoryIndexRef := snd hi\<rparr>))"

definition pdfRestoreEntry :: "pdfCell \<Rightarrow> jsError + pdfCell" where
  "pdfRestoreEntry s =
     (case drawingCanvasRef s of
        None \<Rightarrow> Inr s
      | Some canvas \<Rightarrow>
          (let i = pdfHistoryIndexRef s
           in if 0 \<le> i \<and> i < int (length (pdfHistoryRef s))
              then Inr (s\<lparr>drawingCanvasRef :=
                             Some (putImageData (pdfHistoryRef s ! nat i) canvas)\<rparr>)
              else Inl TypeError))"

definition pdfUndo :: "pdfCell \<Rightarrow> jsError + pdfCell" where
  "pdfUndo s =
     (if pdfHistoryIndexRef s > 0
      then pdfRestoreEntry (s\<lparr>pdfHistoryIndexRef := pdfHistoryIndexRef s - 1\<rparr>)
      else Inr s)"

definition pdfRedo :: "pdfCell \<Rightarrow> jsError + pdfCell" where
  "pdfRedo s =
     (if pdfHistoryIndexRef s < int (length (pdfHistoryRef s)) - 1
      then pdfRestoreEntry (s\<lparr>pdfHistoryIndexRef := pdfHistoryIndexRef s + 1\<rparr>)
      else Inr s)"

subsection \<open>The effect "Render current page"\<close>

definition cancelTask :: "nat \<Rightarrow> renderTask list \<Rightarrow> renderTask list" where
  "cancelTask t ts =
     (if t < length ts \<and> \<not> settled (ts ! t) then ts[t := (ts ! t)\<lparr>cancelled := True\<rparr>] else ts)"

text \<open>The cleanup the effect returns: cancel the task the ref holds, and keep the ref.\<close>

definition renderCleanup :: "pdfCell \<Rightarrow> pdfCell" where
  "renderCleanup s =
     (case renderTaskRef s of
        None \<Rightarrow> s
      | Some t \<Rightarrow> s\<lparr>renderTasks := cancelTask t (renderTasks s)\<rparr>)"

definition drawCustomBackground :: "canvas \<Rightarrow> backgroundType \<Rightarrow> bool \<Rightarrow> canvas" where
  "drawCustomBackground pdfCtx bgType dark =
     (let bg = bgColor dark;
          grid = gridColor dark;
          w = width pdfCtx;
          h = height pdfCtx;
          c1 = fillRect 0 0 w h (pdfCtx\<lparr>fillStyle := bg\<rparr>)
      in case bgType of
           Grid \<Rightarrow>
             forGrid gridSize h (hLine w)
               (forGrid gridSize w (vLine h) (c1\<lparr>strokeStyle := grid, lineWidth := 1\<rparr>))
         | Lines \<Rightarrow> forGrid gridSize h (hLine w) (c1\<lparr>strokeStyle := grid, lineWidth := 1\<rparr>)
         | Dots \<Rightarrow> forGrid gridSize w (\<lambda>x. forGrid gridSize h (dot x)) (c1\<lparr>fillStyle := grid\<rparr>)
         | Blank \<Rightarrow> c1)"

text \<open>
  Loading the saved overlay of a page: with a saved image the work is done later by the
  image's \<open>onload\<close> (\<open>overlayOnload\<close>); without one the drawing canvas is cleared and a
  snapshot is pushed at once.
\<close>

definition loadOverlay :: "imageData option \<Rightarrow> pdfCell \<Rightarrow> pdfCell" where
  "loadOverlay dataUrl s =
     (case dataUrl of
        Some img \<Rightarrow> s\<lparr>overlayWaiting := overlayWaiting s @ [img]\<rparr>
      | None \<Rightarrow>
          (case drawingCanvasRef s of
             None \<Rightarrow> s
           | Some drawingCanvas \<Rightarrow>
               pdfSaveToHistory
                 (s\<lparr>drawingCanvasRef :=
                      Some (clearRect 0 0 (width drawingCanvas) (height drawingCanvas)
                              drawingCanvas)\<rparr>)))"

definition overlayOnload :: "imageData \<Rightarrow> pdfCell \<Rightarrow> pdfCell" where
  "overlayOnload img s =
     (case drawingCanvasRef s of
        None \<Rightarrow> s
      | Some drawingCanvas \<Rightarrow>
          pdfSaveToHistory
            (s\<lparr>drawingCanvasRef :=
                 Some (drawImage img 0 0
                         (clearRect 0 0 (width drawingCanvas) (height drawingCanvas)
                            drawingCanvas))\<rparr>))"

text \<open>
  \<open>renderPage\<close> up to its first \<open>await\<close>: cancel the task the ref holds and clear the ref;
  a custom page is painted at once; for a PDF page the request joins those waiting for
  \<open>getPage\<close>, with the page record it was started for.
\<close>

definition renderPage :: "pdfCell \<Rightarrow> pdfCell" where
  "renderPage s =
     (case (pdfDoc s, currentPage s) of
        (Some doc, Some page) \<Rightarrow>
          (case (pdfCanvasRef s, drawingCanvasRef s) of
             (Some pdfCanvas, Some drawingCanvas) \<Rightarrow>
               (let s1 = (case renderTaskRef s of
                            None \<Rightarrow> s
                          | Some t \<Rightarrow> s\<lparr>renderTasks := cancelTask t (renderTasks s),
                                         renderTaskRef := None\<rparr>)
                in if isCustomPage page
                   then loadOverlay (customDrawingDataUrl page)
                          (s1\<lparr>pdfCanvasRef := Some (drawCustomBackground pdfCanvas
                                 (customPageBackground s) (pdfIsDarkMode s))\<rparr>)
                   else if pageNumber page \<noteq> None
                   then s1\<lparr>getPageWaiting := getPageWaiting s1 @ [page]\<rparr>
                   else s1)
           | _ \<Rightarrow> s)
      | _ \<Rightarrow> s)"

definition removeAt :: "nat \<Rightarrow> 'a list \<Rightarrow> 'a list" where
  "removeAt k xs = take k xs @ drop (Suc k) xs"

text \<open>
  \<open>renderPage\<close> after \<open>await pdfDoc.getPage(...)\<close>, for the \<open>k\<close>-th waiting request: size both
  canvases to the viewport (which resets them), start the render and store its task in
  \<open>renderTaskRef\<close>. A page number outside the document rejects, and the \<open>catch\<close> block
  reports it.
\<close>

definition getPageResolved :: "nat \<Rightarrow> pdfCell \<Rightarrow> pdfCell" where
  "getPageResolved k s =
     (if k < length (getPageWaiting s)
      then (let page = getPageWaiting s ! k;
                s1 = s\<lparr>getPageWaiting := removeAt k (getPageWaiting s)\<rparr>
            in case (pdfDoc s, pageNumber page, pdfCanvasRef s, drawingCanvasRef s) of
                 (Some doc, Some n, Some pdfCanvas, Some drawingCanvas) \<Rightarrow>
                   (if 1 \<le> n \<and> n \<le> length doc
                    then (let proxy = doc ! (n - 1);
                              scale = width pdfCanvas / viewWidth proxy;
                              vw = viewWidth proxy * scale;
                              vh = viewHeight proxy * scale;
                              task = \<lparr>taskPage = page, taskContent = pageContent proxy,
                                      taskWidth = vw, taskHeight = vh,
                                      cancelled = False, settled = False\<rparr>
                          in s1\<lparr>pdfCanvasRef := Some (newCanvas vw vh),
                                drawingCanvasRef := Some (newCanvas vw vh),
                                renderTasks := renderTasks s1 @ [task],
                                renderTaskRef := Some (length (renderTasks s1))\<rparr>)
                    else s1\<lparr>consoleErrors := consoleErrors s1 @ [''Error rendering page:'']\<rparr>)
               | _ \<Rightarrow> s1)
      else s)"

text \<open>
  \<open>renderPage\<close> after \<open>await renderTask.promise\<close>, for task \<open>t\<close>. A cancelled task rejects with
  \<open>RenderingCancelledException\<close>, which the \<open>catch\<close> block drops. Otherwise the page is on
  the canvas and the overlay of the page the request was started for is loaded.
\<close>

definition renderSettled :: "nat \<Rightarrow> pdfCell \<Rightarrow> pdfCell" where
  "renderSettled t s =
     (if t < length (renderTasks s) \<and> \<not> settled (renderTasks s ! t)
      then (let task = renderTasks s ! t;
                s1 = s\<lparr>renderTasks := (renderTasks s)[t := task\<lparr>settled := True\<rparr>]\<rparr>
            in if cancelled task then s1
               else loadOverlay (drawingDataUrl (taskPage task))
                      (s1\<lparr>pdfCanvasRef :=
                            map_option (emit (DrawImage 1 SourceOver (taskContent task) 0 0
                                               (taskWidth task) (taskHeight task)))
                              (pdfCanvasRef s1)\<rparr>))
      else s)"

text \<open>A render that fails for a reason of its own rejects with another error.\<close>

definition renderFailed :: "nat \<Rightarrow> pdfCell \<Rightarrow> pdfCell" where
  "renderFailed t s =
     (if t < length (renderTasks s) \<and> \<not> settled (renderTasks s ! t)
      then (let task = renderTasks s ! t;
                s1 = s\<lparr>renderTasks := (renderTasks s)[t := task\<lparr>settled := True\<rparr>]\<rparr>
            in if cancelled task then s1
               else s1\<lparr>consoleErrors := consoleErrors s1 @ [''Error rendering page:'']\<rparr>)
      else s)"

text \<open>
  \<open>setCurrentPageIndex\<close>: when the index changes, the cleanup of the previous run of the
  effect and then the effect run.
\<close>

definition setCurrentPageIndex :: "nat \<Rightarrow> pdfCell \<Rightarrow> pdfCell" where
  "setCurrentPageIndex i s =
     (if i = currentPageIndex s then s
      else renderPage ((renderCleanup s)\<lparr>currentPageIndex := i\<rparr>))"

subsection \<open>Drawing on the overlay\<close>

definition pdfGetCanvasPoint :: "pointerEvent \<Rightarrow> pdfCell \<Rightarrow> jsError + point" where
  "pdfGetCanvasPoint e s =
     (case drawingCanvasRef s of
        None \<Rightarrow> Inl TypeError
      | Some canvas \<Rightarrow>
          (let scaleX = width canvas / rectWidth e;
               scaleY = height canvas / rectHeight e
           in Inr \<lparr>px = (clientX e - rectLeft e) * scaleX,
                   py = (clientY e - rectTop e) * scaleY,
                   pressure = (if evPressure e = 0 then 0.5 else evPressure e)\<rparr>))"

definition pdfDrawLine :: "pdfCell \<Rightarrow> point \<Rightarrow> point \<Rightarrow> canvas \<Rightarrow> canvas" where
  "pdfDrawLine s from to ctx =
     (let p = (pressure from + pressure to) / 2;
          c1 = lineTo (px to) (py to) (moveTo (px from) (py from) (beginPath ctx));
          c2 = (if pdfToolState s = PdfEraser
                then c1\<lparr>globalCompositeOperation := DestinationOut,
                        strokeStyle := ''rgba(0,0,0,1)'', lineWidth := pdfBrushSize s * 3\<rparr>
                else if pdfToolState s = Highlighter
                then c1\<lparr>globalCompositeOperation := Multiply, strokeStyle := pdfColor s,
                        lineWidth := pdfBrushSize s * 4, globalAlpha := 0.3\<rparr>
                else c1\<lparr>globalCompositeOperation := SourceOver, strokeStyle := pdfColor s,
                        lineWidth := pdfBrushSize s * (0.5 + p), globalAlpha := 1\<rparr>);
          c3 = stroke (c2\<lparr>lineCap := Round, lineJoin := RoundJoin\<rparr>)
      in c3\<lparr>globalCompositeOperation := SourceOver, globalAlpha := 1\<rparr>)"

definition pdfHandlePointerDown :: "pointerEvent \<Rightarrow> pdfCell \<Rightarrow> jsError + pdfCell" where
  "pdfHandlePointerDown e s =
     (if \<not> isEditingDrawing s then Inr s
      else case drawingCanvasRef s of
             None \<Rightarrow> Inr s
           | Some canvas \<Rightarrow>
               (case pdfGetCanvasPoint e s of
                  Inl err \<Rightarrow> Inl err
                | Inr p \<Rightarrow> Inr (s\<lparr>pdfIsDrawing := True, pdfLastPoint := Some p\<rparr>)))"

definition pdfHandlePointerMove :: "pointerEvent \<Rightarrow> pdfCell \<Rightarrow> jsError + pdfCell" where
  "pdfHandlePointerMove e s =
     (if \<not> pdfIsDrawing s \<or> \<not> isEditingDrawing s then Inr s
      else case (drawingCanvasRef s, pdfLastPoint s) of
             (Some canvas, Some lp) \<Rightarrow>
               (case pdfGetCanvasPoint e s of
                  Inl err \<Rightarrow> Inl err
                | Inr currentPoint \<Rightarrow>
                    Inr (s\<lparr>drawingCanvasRef := Some (pdfDrawLine s lp currentPoint canvas),
                           pdfLastPoint := Some currentPoint\<rparr>))
           | _ \<Rightarrow> Inr s)"

definition pdfHandlePointerUp :: "pointerEvent \<Rightarrow> pdfCell \<Rightarrow> jsError + pdfCell" where
  "pdfHandlePointerUp e s =
     (if \<not> pdfIsDrawing s then Inr s
      else Inr (pdfSaveToHistory (s\<lparr>pdfIsDrawing := False, pdfLastPoint := None\<rparr>)))"

definition handleClearDrawing :: "pdfCell \<Rightarrow> pdfCell" where
  "handleClearDrawing s =
     (case drawingCanvasRef s of
        None \<Rightarrow> s
      | Some canvas \<Rightarrow>
          pdfSaveToHistory
            (s\<lparr>drawingCanvasRef := Some (clearRect 0 0 (width canvas) (height canvas) canvas)\<rparr>))"

subsection \<open>Saving, pages and theme\<close>

text \<open>
  The effect "Render current page" depends on \<open>pdfDoc\<close>, \<open>currentPageIndex\<close>, \<open>currentPage\<close>,
  \<open>isDarkMode\<close> and \<open>customPageBackground\<close>. A handler that replaces the current page's
  record in \<open>cell.pages\<close> (the parent merges \<open>onUpdate\<close>'s argument into the cell), or changes
  one of the other dependencies, is followed by the cleanup of the previous run and a new
  run of the effect.

  \<open>canvas.toDataURL\<close> encodes the canvas's pixels; a saved overlay is kept as the image it
  decodes to.
\<close>

definition toDataURL :: "canvas \<Rightarrow> imageData" where
  "toDataURL c = \<lparr>imgWidth = width c, imgHeight = height c, imgData = raster c\<rparr>"

definition handleSaveDrawing :: "pdfCell \<Rightarrow> pdfCell" where
  "handleSaveDrawing s =
     (case (drawingCanvasRef s, currentPage s) of
        (Some canvas, Some page) \<Rightarrow>
          (let dataUrl = toDataURL canvas;
               updatedPages =
                 (pages s)[currentPageIndex s :=
                   (if isCustomPage page then page\<lparr>customDrawingDataUrl := Some dataUrl\<rparr>
                    else page\<lparr>drawingDataUrl := Some dataUrl\<rparr>)]
           in renderPage ((renderCleanup s)\<lparr>pages := updatedPages, isEditingDrawing := False\<rparr>))
      | _ \<Rightarrow> s)"

text \<open>
  \<open>handleUpdateNoteCells\<close> replaces the current page's record with one that differs in its
  note cells, which are not part of this model.
\<close>

definition handleUpdateNoteCells :: "pdfCell \<Rightarrow> pdfCell" where
  "handleUpdateNoteCells s =
     (case currentPage s of
        None \<Rightarrow> s
      | Some page \<Rightarrow> renderPage (renderCleanup s))"

definition newPage :: pdfPage where
  "newPage = \<lparr>pageNumber = None, drawingDataUrl = None, isCustomPage = True,
               customDrawingDataUrl = None\<rparr>"

definition addPageAfterCurrent :: "backgroundType \<Rightarrow> pdfCell \<Rightarrow> pdfCell" where
  "addPageAfterCurrent type s =
     (let updatedPages = take (currentPageIndex s + 1) (pages s) @ [newPage] @
                           drop (currentPageIndex s + 1) (pages s)
      in renderPage ((renderCleanup s)\<lparr>pages := updatedPages,
                       currentPageIndex := currentPageIndex s + 1,
                       customPageBackground := type\<rparr>))"

definition deletePage :: "pdfCell \<Rightarrow> pdfCell" where
  "deletePage s =
     (if length (pages s) \<le> 1 then s
      else (let updatedPages = removeAt (currentPageIndex s) (pages s)
            in renderPage ((renderCleanup s)\<lparr>pages := updatedPages,
                 currentPageIndex :=
                   (if currentPageIndex s \<ge> length updatedPages then length updatedPages - 1
                    else currentPageIndex s)\<rparr>)))"

definition setIsDarkMode :: "bool \<Rightarrow> pdfCell \<Rightarrow> pdfCell" where
  "setIsDarkMode d s =
     (if d = pdfIsDarkMode s then s
      else renderPage ((renderCleanup s)\<lparr>pdfIsDarkMode := d\<rparr>))"

definition pdfHandleKeyDown :: "bool \<Rightarrow> bool \<Rightarrow> string \<Rightarrow> pdfCell \<Rightarrow> jsError + pdfCell" where
  "pdfHandleKeyDown ctrlKey shiftKey key s =
     (if \<not> isEditingDrawing s then Inr s
      else if ctrlKey \<and> key = ''z'' then (if shiftKey then pdfRedo s else pdfUndo s)
      else Inr s)"

subsection \<open>Events\<close>

text \<open>
  What can happen to the cell once its document is loaded: the pointer events of the drawing
  canvas and a click on it, the buttons of the toolbars and of the page navigation, a key
  press, a change of theme, an update of the page's notes, and the completion of a pending
  \<open>getPage\<close>, render or image load. Each handler is taken as the code has it, whether or not
  its button is shown. The width of the notes column and the visibility of the page menu
  touch no canvas and are left out of the state.
\<close>

datatype pdfEvent =
    PdfPointerDown pointerEvent
  | PdfPointerMove pointerEvent
  | PdfPointerUp pointerEvent
  | PdfPointerLeave pointerEvent
  | PdfUndoClick
  | PdfRedoClick
  | PdfClearClick
  | PdfEditClick
  | PdfSetTool pdfTool
  | PdfSetColor colour
  | PdfSetBrushSize real
  | GoToPage nat
  | GetPageResolved nat
  | RenderSettled nat
  | RenderFailed nat
  | OverlayLoaded nat
  | PdfCanvasClick
  | PdfCancelClick
  | PdfSaveClick
  | PdfKeyDown bool bool string
  | PdfAddPage backgroundType
  | PdfDeletePageClick
  | PdfThemeChanged bool
  | PdfNotesUpdated

definition pdfDispatch :: "pdfEvent \<Rightarrow> pdfCell \<Rightarrow> jsError + pdfCell" where
  "pdfDispatch ev s =
     (case ev of
        PdfPointerDown e \<Rightarrow> pdfHandlePointerDown e s
      | PdfPointerMove e \<Rightarrow> pdfHandlePointerMove e s
      | PdfPointerUp e \<Rightarrow> pdfHandlePointerUp e s
      | PdfPointerLeave e \<Rightarrow> pdfHandlePointerUp e s
      | PdfUndoClick \<Rightarrow> pdfUndo s
      | PdfRedoClick \<Rightarrow> pdfRedo s
      | PdfClearClick \<Rightarrow> Inr (handleClearDrawing s)
      | PdfEditClick \<Rightarrow> Inr (s\<lparr>isEditingDrawing := True\<rparr>)
      | PdfSetTool t \<Rightarrow> Inr (s\<lparr>pdfToolState := t\<rparr>)
      | PdfSetColor c \<Rightarrow> Inr (s\<lparr>pdfColor := c\<rparr>)
      | PdfSetBrushSize b \<Rightarrow> Inr (s\<lparr>pdfBrushSize := b\<rparr>)
      | GoToPage i \<Rightarrow> Inr (setCurrentPageIndex i s)
      | GetPageResolved k \<Rightarrow> Inr (getPageResolved k s)
      | RenderSettled t \<Rightarrow> Inr (renderSettled t s)
      | RenderFailed t \<Rightarrow> Inr (renderFailed t s)
      | OverlayLoaded k \<Rightarrow>
          Inr (if k < length (overlayWaiting s)
               then overlayOnload (overlayWaiting s ! k)
                      (s\<lparr>overlayWaiting := removeAt k (overlayWaiting s)\<rparr>)
               else s)
      | PdfCanvasClick \<Rightarrow> Inr (if isEditingDrawing s then s else s\<lparr>isEditingDrawing := True\<rparr>)
      | PdfCancelClick \<Rightarrow> Inr (s\<lparr>isEditingDrawing := False\<rparr>)
      | PdfSaveClick \<Rightarrow> Inr (handleSaveDrawing s)
      | PdfKeyDown ctrlKey shiftKey key \<Rightarrow> pdfHandleKeyDown ctrlKey shiftKey key s
      | PdfAddPage type \<Rightarrow> Inr (addPageAfterCurrent type s)
      | PdfDeletePageClick \<Rightarrow> Inr (deletePage s)
      | PdfThemeChanged d \<Rightarrow> Inr (setIsDarkMode d s)
      | PdfNotesUpdated \<Rightarrow> Inr (handleUpdateNoteCells s))"

fun pdfRun :: "pdfEvent list \<Rightarrow> pdfCell \<Rightarrow> jsError + pdfCell" where
  "pdfRun [] s = Inr s"
| "pdfRun (ev # evs) s =
     (case pdfDispatch ev s of Inl err \<Rightarrow> Inl err | Inr s1 \<Rightarrow> pdfRun evs s1)"

text \<open>
  The cell once its document is loaded: page index 0, both canvases at their initial 800 by
  1000, and the effect run for the first page.
\<close>

definition pdfOpen :: "pdfPage list \<Rightarrow> pageProxy list \<Rightarrow> pdfCell" where
  "pdfOpen ps doc =
     renderPage
       \<lparr>pages = ps, pdfDoc = Some doc, currentPageIndex = 0,
        pdfCanvasRef = Some (newCanvas 800 1000), drawingCanvasRef = Some (newCanvas 800 1000),
        renderTaskRef = None, renderTasks = [], getPageWaiting = [], overlayWaiting = [],
        consoleErrors = [], pdfIsDrawing = False, isEditingDrawing = False,
        pdfColor = ''#ef4444'', pdfBrushSize = 3, pdfToolState = PdfPen, pdfIsDarkMode = False,
        customPageBackground = Lines, pdfLastPoint = None, pdfHistoryRef = [],
        pdfHistoryIndexRef = - 1\<rparr>"

section \<open>What a raster shows at a point\<close>

text \<open>
  To speak of pixels, a raster is sampled at a point of the plane: each paint operation
  covers the points of the region the Canvas 2D interface defines for it (the pixel with
  indices \<open>(i, j)\<close> is sampled at its centre \<open>(i + 1/2, j + 1/2)\<close>), with hard edges, so
  anti-aliasing is left out. Every colour the components use is opaque.

  A pixel is transparent, or a solid colour, or the blend of a source over what was there
  below a composite operation and an alpha that do not simply replace or erase it.
\<close>

type_synonym pt = "real \<times> real"

datatype pixel = Transparent | Solid colour | Blend compositeOp real pixel pixel

text \<open>
  Painting a colour at a covered point: with \<open>source-over\<close> and alpha 1 the colour replaces
  what was there, with \<open>destination-out\<close> and alpha 1 the point becomes transparent, and
  anything else is a blend.
\<close>

definition blend :: "brush \<Rightarrow> pixel \<Rightarrow> pixel" where
  "blend b dest =
     (if paintOp b = SourceOver \<and> paintAlpha b = 1 then Solid (paintColour b)
      else if paintOp b = DestinationOut \<and> paintAlpha b = 1 then Transparent
      else Blend (paintOp b) (paintAlpha b) (Solid (paintColour b)) dest)"

text \<open>
  Drawing an image's pixel: a transparent source leaves the destination as it is below each
  of the three operations; a solid source drawn with \<open>source-over\<close> and alpha 1 replaces it.
\<close>

definition imageOver :: "real \<Rightarrow> compositeOp \<Rightarrow> pixel \<Rightarrow> pixel \<Rightarrow> pixel" where
  "imageOver a op src dest =
     (case src of
        Transparent \<Rightarrow> dest
      | Solid c \<Rightarrow> (if op = SourceOver \<and> a = 1 then Solid c else Blend op a src dest)
      | Blend op' a' s d \<Rightarrow> Blend op a src dest)"

definition inRect :: "real \<Rightarrow> real \<Rightarrow> real \<Rightarrow> real \<Rightarrow> pt \<Rightarrow> bool" where
  "inRect x y w h p =
     (w \<noteq> 0 \<and> h \<noteq> 0 \<and> min x (x + w) \<le> fst p \<and> fst p \<le> max x (x + w) \<and>
      min y (y + h) \<le> snd p \<and> snd p \<le> max y (y + h))"

text \<open>
  The stroke of the segment from \<open>a\<close> to \<open>b\<close> with line width \<open>w\<close>: the points whose foot on
  the line lies on the segment and whose distance from the line is at most \<open>w / 2\<close>, and with
  round caps also the points within \<open>w / 2\<close> of an end. Distances are compared squared.
\<close>

definition nearSegment :: "capStyle \<Rightarrow> real \<Rightarrow> pt \<Rightarrow> pt \<Rightarrow> pt \<Rightarrow> bool" where
  "nearSegment cap w a b p =
     (let dx = fst b - fst a;
          dy = snd b - snd a;
          ex = fst p - fst a;
          ey = snd p - snd a;
          len2 = dx * dx + dy * dy;
          s = ex * dx + ey * dy;
          cross = ex * dy - ey * dx
      in (0 < len2 \<and> 0 \<le> s \<and> s \<le> len2 \<and> 4 * (cross * cross) \<le> w * w * len2) \<or>
         (cap = Round \<and>
            (4 * (ex * ex + ey * ey) \<le> w * w \<or>
             4 * ((fst p - fst b) * (fst p - fst b) + (snd p - snd b) * (snd p - snd b))
               \<le> w * w)))"

text \<open>
  The components draw circles and ellipses in full (from angle 0 to \<open>2 * pi\<close>, unrotated), so
  an arc is taken as its whole circle. The stroke of an ellipse is the band between the
  ellipses with both radii reduced and enlarged by half the line width.
\<close>

definition ellipseForm :: "real \<Rightarrow> real \<Rightarrow> real \<Rightarrow> real \<Rightarrow> pt \<Rightarrow> real" where
  "ellipseForm cx cy rx ry p =
     (fst p - cx) * (fst p - cx) * (ry * ry) + (snd p - cy) * (snd p - cy) * (rx * rx)"

definition inEllipse :: "real \<Rightarrow> real \<Rightarrow> real \<Rightarrow> real \<Rightarrow> pt \<Rightarrow> bool" where
  "inEllipse cx cy rx ry p =
     (0 < rx \<and> 0 < ry \<and> ellipseForm cx cy rx ry p \<le> rx * rx * (ry * ry))"

definition onEllipse :: "real \<Rightarrow> real \<Rightarrow> real \<Rightarrow> real \<Rightarrow> real \<Rightarrow> pt \<Rightarrow> bool" where
  "onEllipse w cx cy rx ry p =
     (inEllipse cx cy (rx + w / 2) (ry + w / 2) p \<and>
      \<not> (0 < rx - w / 2 \<and> 0 < ry - w / 2 \<and>
         ellipseForm cx cy (rx - w / 2) (ry - w / 2) p
           < (rx - w / 2) * (rx - w / 2) * ((ry - w / 2) * (ry - w / 2))))"

text \<open>
  The stroke of a path, followed from its current point; \<open>lineTo\<close> without a current point
  only sets it.
\<close>

fun strokeCovers :: "brush \<Rightarrow> pt option \<Rightarrow> pathOp list \<Rightarrow> pt \<Rightarrow> bool" where
  "strokeCovers b cur [] p = False"
| "strokeCovers b cur (MoveTo x y # ops) p = strokeCovers b (Some (x, y)) ops p"
| "strokeCovers b None (LineTo x y # ops) p = strokeCovers b (Some (x, y)) ops p"
| "strokeCovers b (Some a) (LineTo x y # ops) p =
     (nearSegment (paintCap b) (paintWidth b) a (x, y) p \<or> strokeCovers b (Some (x, y)) ops p)"
| "strokeCovers b cur (Arc cx cy r a0 a1 # ops) p =
     (onEllipse (paintWidth b) cx cy r r p \<or> strokeCovers b (Some (cx + r, cy)) ops p)"
| "strokeCovers b cur (Ellipse cx cy rx ry rot a0 a1 # ops) p =
     (onEllipse (paintWidth b) cx cy rx ry p \<or> strokeCovers b (Some (cx + rx, cy)) ops p)"

text \<open>The components fill only circles and ellipses; an open polyline encloses nothing.\<close>

fun fillCovers :: "pathOp list \<Rightarrow> pt \<Rightarrow> bool" where
  "fillCovers [] p = False"
| "fillCovers (MoveTo x y # ops) p = fillCovers ops p"
| "fillCovers (LineTo x y # ops) p = fillCovers ops p"
| "fillCovers (Arc cx cy r a0 a1 # ops) p = (inEllipse cx cy r r p \<or> fillCovers ops p)"
| "fillCovers (Ellipse cx cy rx ry rot a0 a1 # ops) p =
     (inEllipse cx cy rx ry p \<or> fillCovers ops p)"

text \<open>
  The outline of a rectangle: its four sides, joined round or, with mitred joins, squared
  off at the corners.
\<close>

definition onRect :: "brush \<Rightarrow> real \<Rightarrow> real \<Rightarrow> real \<Rightarrow> real \<Rightarrow> pt \<Rightarrow> bool" where
  "onRect b x y w h p =
     (if paintJoin b = RoundJoin
      then nearSegment Round (paintWidth b) (x, y) (x + w, y) p \<or>
           nearSegment Round (paintWidth b) (x + w, y) (x + w, y + h) p \<or>
           nearSegment Round (paintWidth b) (x + w, y + h) (x, y + h) p \<or>
           nearSegment Round (paintWidth b) (x, y + h) (x, y) p
      else (let d = paintWidth b / 2;
                x0 = min x (x + w); x1 = max x (x + w);
                y0 = min y (y + h); y1 = max y (y + h)
            in x0 - d \<le> fst p \<and> fst p \<le> x1 + d \<and> y0 - d \<le> snd p \<and> snd p \<le> y1 + d \<and>
               \<not> (x0 + d < fst p \<and> fst p < x1 - d \<and> y0 + d < snd p \<and> snd p < y1 - d)))"

text \<open>
  \<open>paintOver p below r\<close>: the pixel at \<open>p\<close> after the paint operations of \<open>r\<close>, oldest first, on a
  canvas that showed \<open>below\<close> there. An image is sampled at the point's offset from its corner.
\<close>

fun paintOver :: "pt \<Rightarrow> pixel \<Rightarrow> paint list \<Rightarrow> pixel" where
  "paintOver p below [] = below"
| "paintOver p below (FillRect b x y w h # r) =
     paintOver p (if inRect x y w h p then blend b below else below) r"
| "paintOver p below (StrokeRect b x y w h # r) =
     paintOver p (if onRect b x y w h p then blend b below else below) r"
| "paintOver p below (FillPath b ops # r) =
     paintOver p (if fillCovers ops p then blend b below else below) r"
| "paintOver p below (StrokePath b ops # r) =
     paintOver p (if strokeCovers b None ops p then blend b below else below) r"
| "paintOver p below (ClearRect x y w h # r) =
     paintOver p (if inRect x y w h p then Transparent else below) r"
| "paintOver p below (DrawImage a op img x y w h # r) =
     paintOver p
       (if inRect x y w h p
        then imageOver a op (paintOver (fst p - x, snd p - y) Transparent img) below
        else below) r"
| "paintOver p below (PutImageData img w h # r) =
     paintOver p (if inRect 0 0 w h p then paintOver p Transparent img else below) r"

definition pixelAt :: "raster \<Rightarrow> pt \<Rightarrow> pixel" where
  "pixelAt r p = paintOver p Transparent r"

text \<open>
  What the drawing cell displays: its three canvases are stacked in document order, the
  background canvas below, the main canvas over it and the preview canvas on top.
\<close>

definition layerOver :: "canvas option \<Rightarrow> pt \<Rightarrow> pixel \<Rightarrow> pixel" where
  "layerOver c p below =
     (case c of None \<Rightarrow> below | Some cv \<Rightarrow> imageOver 1 SourceOver (pixelAt (raster cv) p) below)"

definition displayAt :: "drawingCell \<Rightarrow> pt \<Rightarrow> pixel" where
  "displayAt s p =
     layerOver (previewCanvasRef s) p
       (layerOver (canvasRef s) p (layerOver (bgCanvasRef s) p Transparent))"

text \<open>
  Two canvases in the same paint state at a point: they show the same pixel there and agree
  on the attributes a background pattern is painted with.
\<close>

definition sameAt :: "pt \<Rightarrow> canvas \<Rightarrow> canvas \<Rightarrow> bool" where
  "sameAt p c c' =
     (pixelAt (raster c) p = pixelAt (raster c') p \<and> fillStyle c = fillStyle c' \<and>
      strokeStyle c = strokeStyle c' \<and> lineWidth c = lineWidth c' \<and>
      globalAlpha c = globalAlpha c' \<and>
      globalCompositeOperation c = globalCompositeOperation c')"

definition sameFillAt :: "pt \<Rightarrow> canvas \<Rightarrow> canvas \<Rightarrow> bool" where
  "sameFillAt p c c' =
     (pixelAt (raster c) p = pixelAt (raster c') p \<and> fillStyle c = fillStyle c' \<and>
      globalAlpha c = globalAlpha c' \<and>
      globalCompositeOperation c = globalCompositeOperation c')"

section \<open>Predicates and sample inputs for the claims\<close>

text \<open>
  The operations on a history, as the drawing cell and the PDF cell both write them: a push
  is \<open>pushHistory\<close>, and \<open>undo\<close> and \<open>redo\<close> move the cursor one entry down or up when their
  guard allows it and leave the entries alone. \<open>historyAfter ops\<close> is the history and cursor
  after a sequence of these operations, starting from the empty history with cursor -1.
\<close>

datatype 'a historyOp = PushOp 'a | UndoOp | RedoOp

definition undoCursor :: "'a list \<times> int \<Rightarrow> 'a list \<times> int" where
  "undoCursor hi = (if snd hi > 0 then (fst hi, snd hi - 1) else hi)"

definition redoCursor :: "'a list \<times> int \<Rightarrow> 'a list \<times> int" where
  "redoCursor hi = (if snd hi < int (length (fst hi)) - 1 then (fst hi, snd hi + 1) else hi)"

fun historyStep :: "'a historyOp \<Rightarrow> 'a list \<times> int \<Rightarrow> 'a list \<times> int" where
  "historyStep (PushOp x) hi = pushHistory x hi"
| "historyStep UndoOp hi = undoCursor hi"
| "historyStep RedoOp hi = redoCursor hi"

definition historyAfter :: "'a historyOp list \<Rightarrow> 'a list \<times> int" where
  "historyAfter ops = fold historyStep ops ([], - 1)"

definition cursorValid :: "'a list \<times> int \<Rightarrow> bool" where
  "cursorValid hi = (- 1 \<le> snd hi \<and> snd hi < int (length (fst hi)) \<and> length (fst hi) \<le> 50)"

text \<open>
  The surface is in sync with its history: the main canvas is mounted, the cursor is inside
  the history, at most 50 entries are held, the entry under the cursor is the canvas's
  current content, and every entry has the canvas's size.
\<close>

definition inSync :: "drawingCell \<Rightarrow> bool" where
  "inSync s =
     (case canvasRef s of
        None \<Rightarrow> False
      | Some c \<Rightarrow>
          0 \<le> historyIndexRef s \<and> historyIndexRef s < int (length (historyRef s)) \<and>
          length (historyRef s) \<le> 50 \<and>
          historyRef s ! nat (historyIndexRef s) = getImageData c \<and>
          list_all (\<lambda>img. imgWidth img = width c \<and> imgHeight img = height c) (historyRef s))"

text \<open>
  \<open>during s0 s\<close>: \<open>s\<close> is a state in the middle of a gesture that started in \<open>s0\<close>.
\<close>

definition during :: "drawingCell \<Rightarrow> drawingCell \<Rightarrow> bool" where
  "during s0 s =
     (isDrawing s \<and> isEditing s \<and> historyRef s = historyRef s0 \<and>
      historyIndexRef s = historyIndexRef s0 \<and>
      (case (canvasRef s0, canvasRef s) of
         (Some c0, Some c) \<Rightarrow> width c = width c0 \<and> height c = height c0
       | _ \<Rightarrow> False))"

definition andThen :: "jsError + 'a \<Rightarrow> ('a \<Rightarrow> jsError + 'b) \<Rightarrow> jsError + 'b" where
  "andThen r f = (case r of Inl err \<Rightarrow> Inl err | Inr x \<Rightarrow> f x)"

text \<open>
  A drawing surface of the engine is one of the three components. The history a surface
  holds is its \<open>historyRef\<close>; the mini drawing cell has none.
\<close>

datatype surface = DrawingSurface drawingCell | MiniSurface miniDrawing | PdfSurface pdfCell

fun surfaceHistory :: "surface \<Rightarrow> imageData list" where
  "surfaceHistory (DrawingSurface s) = historyRef s"
| "surfaceHistory (MiniSurface s) = []"
| "surfaceHistory (PdfSurface s) = pdfHistoryRef s"

fun surfaceInk :: "surface \<Rightarrow> raster option" where
  "surfaceInk (DrawingSurface s) = map_option raster (canvasRef s)"
| "surfaceInk (MiniSurface s) = map_option raster (miniCanvasRef s)"
| "surfaceInk (PdfSurface s) = map_option raster (drawingCanvasRef s)"

text \<open>
  \<open>pdfDuring s0 s\<close>: \<open>s\<close> is a state in the middle of a gesture on the PDF overlay that
  started in \<open>s0\<close>.
\<close>

definition pdfDuring :: "pdfCell \<Rightarrow> pdfCell \<Rightarrow> bool" where
  "pdfDuring s0 s =
     (pdfIsDrawing s \<and> isEditingDrawing s \<and> pdfHistoryRef s = pdfHistoryRef s0 \<and>
      pdfHistoryIndexRef s = pdfHistoryIndexRef s0 \<and> drawingCanvasRef s \<noteq> None)"

text \<open>
  The saved overlays a PDF cell is opened with, and the paint operations that are ink on the
  overlay: a freehand segment with round caps, a saved overlay drawn back (one the cell was
  opened with, or one that holds only ink), or a restored snapshot that holds only ink. A
  fill, a butt-capped ruling, a dot or a page picture is not ink.
\<close>

definition savedOverlays :: "pdfPage list \<Rightarrow> raster set" where
  "savedOverlays ps =
     {imgData img | img pg. pg \<in> set ps \<and>
        (drawingDataUrl pg = Some img \<or> customDrawingDataUrl pg = Some img)}"

fun inkPaint :: "raster set \<Rightarrow> paint \<Rightarrow> bool" where
  "inkPaint S (StrokePath b [MoveTo x y, LineTo x' y']) = (paintCap b = Round)"
| "inkPaint S (DrawImage a op d x y w h) = (d \<in> S \<or> (\<forall>q \<in> set d. inkPaint S q))"
| "inkPaint S (PutImageData d w h) = (\<forall>q \<in> set d. inkPaint S q)"
| "inkPaint S q = False"

definition inkOnly :: "raster set \<Rightarrow> raster \<Rightarrow> bool" where
  "inkOnly S r = (\<forall>q \<in> set r. inkPaint S q)"

definition inkImage :: "raster set \<Rightarrow> imageData \<Rightarrow> bool" where
  "inkImage S img = (imgData img \<in> S \<or> inkOnly S (imgData img))"

definition inkPage :: "raster set \<Rightarrow> pdfPage \<Rightarrow> bool" where
  "inkPage S pg =
     ((\<forall>img. drawingDataUrl pg = Some img \<longrightarrow> inkImage S img) \<and>
      (\<forall>img. customDrawingDataUrl pg = Some img \<longrightarrow> inkImage S img))"

text \<open>
  What holds of the PDF cell in every state reached from opening it with saved overlays \<open>S\<close>:
  the ink canvas and every snapshot hold only ink, and so does the saved overlay of every
  page record of the cell and of every page record a pending request, render task or image
  load works for.
\<close>

definition pdfInkOnly :: "raster set \<Rightarrow> pdfCell \<Rightarrow> bool" where
  "pdfInkOnly S s =
     ((\<forall>c. drawingCanvasRef s = Some c \<longrightarrow> inkOnly S (raster c)) \<and>
      (\<forall>img \<in> set (pdfHistoryRef s). inkOnly S (imgData img)) \<and>
      (\<forall>img \<in> set (overlayWaiting s). inkImage S img) \<and>
      (\<forall>pg \<in> set (pages s). inkPage S pg) \<and>
      (\<forall>pg \<in> set (getPageWaiting s). inkPage S pg) \<and>
      (\<forall>t \<in> set (renderTasks s). inkPage S (taskPage t)))"

text \<open>
  What a component displays. Its canvases are siblings in one container, in the order of
  the JSX, each positioned by its class: \<open>absolute\<close>, \<open>relative\<close>, or neither. The browser
  paints the siblings that are not positioned first and the positioned ones (none has a
  \<open>z-index\<close>) over them, each group in document order, and a canvas is composited over what
  is below it.
\<close>

datatype cssPosition = Static | Relative | Absolute

record canvasElement =
  elemCanvas :: "canvas option"
  elemPosition :: cssPosition

definition drawingCellCanvases :: "drawingCell \<Rightarrow> canvasElement list" where
  "drawingCellCanvases s =
     [\<lparr>elemCanvas = bgCanvasRef s, elemPosition = Absolute\<rparr>,
      \<lparr>elemCanvas = canvasRef s, elemPosition = Relative\<rparr>,
      \<lparr>elemCanvas = previewCanvasRef s, elemPosition = Absolute\<rparr>]"

definition miniDrawingCanvases :: "miniDrawing \<Rightarrow> canvasElement list" where
  "miniDrawingCanvases s =
     [\<lparr>elemCanvas = miniBgCanvasRef s, elemPosition = Absolute\<rparr>,
      \<lparr>elemCanvas = miniCanvasRef s, elemPosition = Relative\<rparr>,
      \<lparr>elemCanvas = miniPreviewCanvasRef s, elemPosition = Absolute\<rparr>]"

definition pdfCellCanvases :: "pdfCell \<Rightarrow> canvasElement list" where
  "pdfCellCanvases s =
     [\<lparr>elemCanvas = pdfCanvasRef s, elemPosition = Static\<rparr>,
      \<lparr>elemCanvas = drawingCanvasRef s, elemPosition = Absolute\<rparr>]"

definition paintOrder :: "canvasElement list \<Rightarrow> canvasElement list" where
  "paintOrder es =
     filter (\<lambda>e. elemPosition e = Static) es @ filter (\<lambda>e. elemPosition e \<noteq> Static) es"

definition stackAt :: "canvasElement list \<Rightarrow> pt \<Rightarrow> pixel" where
  "stackAt es p = fold (\<lambda>e below. layerOver (elemCanvas e) p below) (paintOrder es) Transparent"

subsection \<open>Sample inputs\<close>

definition sampleEvent :: "real \<Rightarrow> real \<Rightarrow> pointerEvent" where
  "sampleEvent x y =
     \<lparr>clientX = x, clientY = y, evPressure = 0.5, rectLeft = 0, rectTop = 0,
      rectWidth = 800, rectHeight = 400\<rparr>"

definition penStroke :: gesture where
  "penStroke =
     \<lparr>gTool = Pen, gColor = ''#000000'', gBrushSize = 3, gFill = False,
      gDown = sampleEvent 10 10, gMoves = [sampleEvent 20 20], gUp = sampleEvent 20 20,
      gLeave = False\<rparr>"

definition whiteFill :: paint where
  "whiteFill =
     FillRect \<lparr>paintColour = ''#ffffff'', paintWidth = 1, paintCap = Butt, paintJoin = Miter,
               paintAlpha = 1, paintOp = SourceOver\<rparr> 0 0 800 400"

definition blackSegment :: paint where
  "blackSegment =
     StrokePath \<lparr>paintColour = ''#000000'', paintWidth = 3, paintCap = Round,
                 paintJoin = RoundJoin, paintAlpha = 1, paintOp = SourceOver\<rparr>
       [MoveTo 10 10, LineTo 20 20]"

definition miniEvent400 :: "real \<Rightarrow> real \<Rightarrow> pointerEvent" where
  "miniEvent400 x y =
     \<lparr>clientX = x, clientY = y, evPressure = 0.5, rectLeft = 0, rectTop = 0,
      rectWidth = 400, rectHeight = 150\<rparr>"

definition rectGesture :: "miniEvent list" where
  "rectGesture =
     [MiniSetTool RectTool, MiniPointerDown (miniEvent400 10 10),
      MiniPointerMove (miniEvent400 20 15), MiniPointerMove (miniEvent400 30 25),
      MiniPointerMove (miniEvent400 50 40), MiniPointerUp (miniEvent400 50 40)]"

definition samplePage :: "nat \<Rightarrow> pdfPage" where
  "samplePage n = \<lparr>pageNumber = Some n, drawingDataUrl = None, isCustomPage = False,
                   customDrawingDataUrl = None\<rparr>"

definition sampleProxy :: "colour \<Rightarrow> pageProxy" where
  "sampleProxy c =
     \<lparr>viewWidth = 800, viewHeight = 1000,
      pageContent = [FillRect \<lparr>paintColour = c, paintWidth = 1, paintCap = Butt,
                       paintJoin = Miter, paintAlpha = 1, paintOp = SourceOver\<rparr> 0 0 800 1000]\<rparr>"

definition samplePdf :: pdfCell where
  "samplePdf =
     pdfOpen [samplePage 1, samplePage 2, samplePage 3]
       [sampleProxy ''#aa0000'', sampleProxy ''#00aa00'', sampleProxy ''#0000aa'']"

text \<open>The base layer of the PDF cell: the raster of the page canvas.\<close>

definition baseLayer :: "pdfCell \<Rightarrow> raster option" where
  "baseLayer s = map_option raster (pdfCanvasRef s)"

text \<open>
  Two histories of page switches on the sample document, which opens on page 1. In both,
  page 1 is rendered, then page 2 is requested and then page 3. In the first the switch to
  page 3 comes while \<open>getPage\<close> for page 2 is still pending, both renders start, and the
  render of page 2 completes last. In the second the switch to page 3 comes after the render
  of page 2 has started.
\<close>

definition pageSwitchDuringGetPage :: "pdfEvent list" where
  "pageSwitchDuringGetPage =
     [GetPageResolved 0, RenderSettled 0, GoToPage 1, GoToPage 2,
      GetPageResolved 0, GetPageResolved 0, RenderSettled 2, RenderSettled 1]"

definition pageSwitchDuringRender :: "pdfEvent list" where
  "pageSwitchDuringRender =
     [GetPageResolved 0, RenderSettled 0, GoToPage 1, GetPageResolved 0, GoToPage 2,
      RenderSettled 1, GetPageResolved 0, RenderSettled 2]"

definition pagePicture :: "colour \<Rightarrow> paint" where
  "pagePicture c = DrawImage 1 SourceOver (pageContent (sampleProxy c)) 0 0 800 1000"

text \<open>A canvas as a pen stroke leaves it, and a point inside a 800 by 400 canvas.\<close>

definition usedCanvas :: canvas where
  "usedCanvas =
     (newCanvas 800 400)\<lparr>raster := [whiteFill, blackSegment], fillStyle := ''#ffffff'',
        lineWidth := 3, lineCap := Round, lineJoin := RoundJoin,
        path := [MoveTo 10 10, LineTo 20 20]\<rparr>"

text \<open>
  On a fresh 800 by 400 cell: choose the grid background, take the eraser and drag it from
  (10, 10.5) to (30, 10.5), across the ruling at x = 20.
\<close>

definition eraseAcrossRuling :: "uiEvent list" where
  "eraseAcrossRuling =
     [SetBackground Grid, SetTool Eraser, PointerDown (sampleEvent 10 10.5),
      PointerMove (sampleEvent 30 10.5), PointerUp (sampleEvent 30 10.5)]"

text \<open>
  On the sample document: the first page is rendered, drawing is switched on, and one pen
  segment is drawn on the overlay.
\<close>

definition annotatePage :: "pdfEvent list" where
  "annotatePage =
     [GetPageResolved 0, RenderSettled 0, PdfEditClick, PdfPointerDown (sampleEvent 10 10),
      PdfPointerMove (sampleEvent 20 20), PdfPointerUp (sampleEvent 20 20)]"

text \<open>
  The same, and then the annotation is saved, which renders the page again and draws the
  saved overlay back.
\<close>

definition annotateAndSave :: "pdfEvent list" where
  "annotateAndSave =
     annotatePage @ [PdfSaveClick, GetPageResolved 0, RenderSettled 1, OverlayLoaded 0]"

section \<open>Lemmas on the history\<close>

lemma pushHistory_eq:
  assumes "- 1 \<le> i" "i < int (length h)" "length h \<le> 50"
  shows "pushHistory x (h, i) =
           (if i = 49 then (tl h @ [x], 49) else (take (nat (i + 1)) h @ [x], i + 1))"
proof -
  have len: "length (take (nat (i + 1)) h) = nat (i + 1)" using assms by simp
  show ?thesis
  proof (cases "i = 49")
    case True
    then have "length h = 50" using assms by linarith
    then have t: "take (nat (i + 1)) h = h" using True by simp
    have "h \<noteq> []" using \<open>length h = 50\<close> by auto
    then show ?thesis using True t \<open>length h = 50\<close>
      by (simp add: pushHistory_def slice0_def Let_def)
  next
    case False
    then have "i + 1 < 50" using assms by linarith
    then show ?thesis using assms False len
      by (simp add: pushHistory_def slice0_def Let_def)
  qed
qed


lemma drawLine_dims: "width (drawLine s a b c) = width c \<and> height (drawLine s a b c) = height c"
  by (simp add: drawLine_def Let_def stroke_def emit_def lineTo_def moveTo_def beginPath_def)

lemma drawShape_dims:
  "width (drawShape s c a b t p) = width c \<and> height (drawShape s c a b t p) = height c"
  by (cases t)
     (simp_all add: drawShape_def Let_def stroke_def fill_def emit_def lineTo_def moveTo_def
        beginPath_def fillRect_def strokeRect_def ellipse_def)

lemma down_during:
  assumes "isEditing s" "canvasRef s = Some c"
  shows "\<exists>s1. handlePointerDown e s = Inr s1 \<and> during s s1"
  using assms
  by (simp add: handlePointerDown_def getCanvasPoint_def Let_def during_def)

lemma move_during:
  assumes "during s0 s"
  shows "\<exists>s1. handlePointerMove e s = Inr s1 \<and> during s0 s1"
proof -
  obtain c0 c where c: "canvasRef s0 = Some c0" "canvasRef s = Some c"
    "width c = width c0" "height c = height c0"
    using assms by (auto simp: during_def split: option.splits)
  show ?thesis
    using assms c drawLine_dims [of s _ _ c]
    by (auto simp: handlePointerMove_def getCanvasPoint_def Let_def during_def
          clearPreviewCanvas_def split: option.splits)
qed

lemma moves_during:
  assumes "during s0 s"
  shows "\<exists>s1. run (map PointerMove es) s = Inr s1 \<and> during s0 s1"
  using assms
proof (induction es arbitrary: s)
  case Nil
  then show ?case by simp
next
  case (Cons e es)
  obtain s1 where "handlePointerMove e s = Inr s1" "during s0 s1"
    using move_during [OF Cons.prems] by blast
  then show ?case using Cons.IH [of s1] by (simp add: dispatch_def)
qed

lemma up_during:
  assumes "during s0 s"
  shows "\<exists>s1 c1. handlePointerUp e s = Inr s1 \<and> canvasRef s1 = Some c1 \<and>
           (\<exists>c0. canvasRef s0 = Some c0 \<and> width c1 = width c0 \<and> height c1 = height c0) \<and>
           \<not> isDrawing s1 \<and> isEditing s1 \<and>
           (historyRef s1, historyIndexRef s1) =
             pushHistory (getImageData c1) (historyRef s0, historyIndexRef s0)"
proof -
  obtain c0 c where c: "canvasRef s0 = Some c0" "canvasRef s = Some c"
    "width c = width c0" "height c = height c0"
    using assms by (auto simp: during_def split: option.splits)
  show ?thesis
    using assms c drawShape_dims [of s c]
    by (auto simp: handlePointerUp_def getCanvasPoint_def Let_def during_def
          clearPreviewCanvas_def saveToHistory_def split: option.splits)
qed












lemmas eval_defs = openCell_def colorEffect_def bgEffect_def initEffect_def mount_def drawBackground_def
     saveToHistory_def pushHistory_def slice0_def Let_def newCanvas_def fillRect_def emit_def
     doGesture_def gestureEvents_def applySettings_def dispatch_def handlePointerDown_def
     handlePointerMove_def handlePointerUp_def getCanvasPoint_def drawLine_def isShapeTool_def
     stroke_def lineTo_def moveTo_def beginPath_def getImageData_def putImageData_def
     undo_def redo_def restoreEntry_def ink_def bgColor_def gridColor_def eraserColor_def
     fillBrush_def strokeBrush_def sampleEvent_def penStroke_def whiteFill_def blackSegment_def
     inSync_def andThen_def

lemma open_inSync:
  "inSync (openCell None 800 400) \<and> isEditing (openCell None 800 400) \<and>
   historyIndexRef (openCell None 800 400) = 0 \<and> ink (openCell None 800 400) = Some [whiteFill]"
  by (simp add: eval_defs)





lemma openCell_inSync:
  "inSync (openCell None w h) \<and> isEditing (openCell None w h)"
  by (simp add: openCell_def colorEffect_def bgEffect_def initEffect_def mount_def
        saveToHistory_def pushHistory_def slice0_def Let_def inSync_def getImageData_def)

lemma loaded_inSync:
  "run [ImageLoaded img, EditClick] (openCell (Some img) w h) = Inr s \<Longrightarrow>
     inSync s \<and> isEditing s"
  by (auto simp: dispatch_def initOnload_def drawImage_def emit_def openCell_def colorEffect_def
        bgEffect_def initEffect_def mount_def saveToHistory_def pushHistory_def slice0_def
        Let_def inSync_def getImageData_def)

lemma push_valid:
  assumes "cursorValid hi"
  shows "cursorValid (pushHistory x hi)"
proof -
  obtain h i where hi: "hi = (h, i)" by (cases hi)
  have a: "- 1 \<le> i" "i < int (length h)" "length h \<le> 50"
    using assms hi by (simp_all add: cursorValid_def)
  show ?thesis
  proof (cases "i = 49")
    case True
    then have "length h = 50" using a by linarith
    then show ?thesis using hi pushHistory_eq [OF a, of x] True by (simp add: cursorValid_def)
  next
    case False
    then show ?thesis using hi pushHistory_eq [OF a, of x] a by (simp add: cursorValid_def)
  qed
qed

lemma step_valid:
  assumes "cursorValid hi"
  shows "cursorValid (historyStep op hi)"
proof (cases op)
  case (PushOp x)
  then show ?thesis using push_valid [OF assms] by simp
next
  case UndoOp
  then show ?thesis using assms by (simp add: undoCursor_def cursorValid_def)
next
  case RedoOp
  then show ?thesis using assms by (simp add: redoCursor_def cursorValid_def)
qed

lemma fold_valid:
  assumes "cursorValid hi"
  shows "cursorValid (fold historyStep ops hi)"
  using assms by (induction ops arbitrary: hi) (simp_all add: step_valid)

lemma historyAfter_valid: "cursorValid (historyAfter ops)"
  unfolding historyAfter_def by (rule fold_valid) (simp add: cursorValid_def)

text \<open>
  The cursor moves of \<open>historyStep\<close> are those of \<open>undo\<close> and \<open>redo\<close> in both components.
\<close>

lemma undo_cursor:
  assumes "undo s = Inr s'"
  shows "(historyRef s', historyIndexRef s') = undoCursor (historyRef s, historyIndexRef s)"
  using assms
  by (auto simp: undo_def restoreEntry_def undoCursor_def Let_def split: if_splits option.splits)

lemma redo_cursor:
  assumes "redo s = Inr s'"
  shows "(historyRef s', historyIndexRef s') = redoCursor (historyRef s, historyIndexRef s)"
  using assms
  by (auto simp: redo_def restoreEntry_def redoCursor_def Let_def split: if_splits option.splits)

lemma pdfUndo_cursor:
  assumes "pdfUndo s = Inr s'"
  shows "(pdfHistoryRef s', pdfHistoryIndexRef s') =
           undoCursor (pdfHistoryRef s, pdfHistoryIndexRef s)"
  using assms
  by (auto simp: pdfUndo_def pdfRestoreEntry_def undoCursor_def Let_def
        split: if_splits option.splits)

lemma pdfRedo_cursor:
  assumes "pdfRedo s = Inr s'"
  shows "(pdfHistoryRef s', pdfHistoryIndexRef s') =
           redoCursor (pdfHistoryRef s, pdfHistoryIndexRef s)"
  using assms
  by (auto simp: pdfRedo_def pdfRestoreEntry_def redoCursor_def Let_def
        split: if_splits option.splits)

section \<open>The claims on the history\<close>

text \<open>
  Claim C3, as amended. After every sequence of pushes, undos and redos the history holds
  at most 50 entries and the cursor is inside it (or is -1 on the empty history). A push
  keeps the entries up to the cursor, dropping any future entries, and appends the
  snapshot; only when that gives more than 50 entries, which is when 50 entries were kept,
  the cursor being at the last of 50, it also drops the oldest entry. After the push the
  history holds at most 50 entries and the cursor is inside it, at the last entry, which is
  the snapshot just pushed.
\<close>

theorem history_within_cap:
  "let hi = historyAfter ops;
       kept = take (nat (snd hi + 1)) (fst hi);
       hi' = pushHistory x hi
   in length (fst hi) \<le> 50 \<and> - 1 \<le> snd hi \<and> snd hi < int (length (fst hi)) \<and>
      fst hi' = (if length kept = 50 then tl (kept @ [x]) else kept @ [x]) \<and>
      length (fst hi') \<le> 50 \<and> 0 \<le> snd hi' \<and> snd hi' < int (length (fst hi')) \<and>
      snd hi' = int (length (fst hi')) - 1 \<and> fst hi' ! nat (snd hi') = x"
proof -
  obtain h i where hi: "historyAfter ops = (h, i)" by (cases "historyAfter ops")
  have a: "- 1 \<le> i" "i < int (length h)" "length h \<le> 50"
    using historyAfter_valid [of ops] hi by (simp_all add: cursorValid_def)
  have len: "length (take (nat (i + 1)) h) = nat (i + 1)" using a by simp
  show ?thesis
  proof (cases "i = 49")
    case True
    then have l: "length h = 50" using a by linarith
    then have "h \<noteq> []" "length (tl h) = 49" by auto
    then show ?thesis using hi pushHistory_eq [OF a, of x] True l
      by (simp add: Let_def nth_append)
  next
    case False
    then have "nat (i + 1) \<noteq> 50" by linarith
    then show ?thesis using hi pushHistory_eq [OF a, of x] False a len
      by (simp add: Let_def nth_append)
  qed
qed

text \<open>
  Claim C3 as stated fails when 50 entries exist and the cursor is not at the last one.
  After 50 pushes and 10 undos the history holds the 50 snapshots 0 to 49 with the cursor
  at 39; the push of snapshot 99 drops the ten entries after the cursor and leaves 41
  entries, the oldest entry 0 still the first: nothing is evicted.
\<close>

theorem push_keeps_oldest:
  "historyAfter (map PushOp [0 ..< 50] @ replicate 10 UndoOp) = ([0 ..< 50 :: nat], 39) \<and>
   length [0 ..< 50 :: nat] = 50 \<and>
   pushHistory 99 ([0 ..< 50 :: nat], 39) = ([0 ..< 40] @ [99], 40)"
  by code_simp

text \<open>
  Claim C8. \<open>undo\<close> with the cursor at 0 and \<open>redo\<close> with the cursor at the last entry
  return the state they were given, unchanged in cursor, history and canvases, and do not
  throw.
\<close>

theorem undo_redo_boundary:
  "(historyIndexRef s = 0 \<longrightarrow> undo s = Inr s) \<and>
   (historyIndexRef s = int (length (historyRef s)) - 1 \<longrightarrow> redo s = Inr s)"
  by (simp add: undo_def redo_def)

theorem undo_redo_boundary_witness:
  "historyIndexRef (openCell None 800 400) = 0 \<and>
   undo (openCell None 800 400) = Inr (openCell None 800 400) \<and>
   historyIndexRef (openCell None 800 400) =
     int (length (historyRef (openCell None 800 400))) - 1 \<and>
   redo (openCell None 800 400) = Inr (openCell None 800 400)"
proof -
  have "length (historyRef (openCell None 800 400)) = 1"
    by (simp add: eval_defs)
  then show ?thesis
    using undo_redo_boundary [of "openCell None 800 400"] open_inSync by simp
qed




section \<open>Gestures and the history\<close>

lemma pdf_down_during:
  assumes "isEditingDrawing s" "drawingCanvasRef s = Some c"
  shows "\<exists>s1. pdfHandlePointerDown e s = Inr s1 \<and> pdfDuring s s1"
  using assms
  by (simp add: pdfHandlePointerDown_def pdfGetCanvasPoint_def Let_def pdfDuring_def)

lemma pdf_move_during:
  assumes "pdfDuring s0 s"
  shows "\<exists>s1. pdfHandlePointerMove e s = Inr s1 \<and> pdfDuring s0 s1"
  using assms
  by (auto simp: pdfHandlePointerMove_def pdfGetCanvasPoint_def Let_def pdfDuring_def
        split: option.splits)

lemma pdf_moves_during:
  assumes "pdfDuring s0 s"
  shows "\<exists>s1. pdfRun (map PdfPointerMove es) s = Inr s1 \<and> pdfDuring s0 s1"
  using assms
proof (induction es arbitrary: s)
  case Nil
  then show ?case by simp
next
  case (Cons e es)
  obtain s1 where "pdfHandlePointerMove e s = Inr s1" "pdfDuring s0 s1"
    using pdf_move_during [OF Cons.prems] by blast
  then show ?case using Cons.IH [of s1] by (simp add: pdfDispatch_def)
qed

lemma pdf_up_during:
  assumes "pdfDuring s0 s"
  shows "\<exists>s1 c1. pdfHandlePointerUp e s = Inr s1 \<and> drawingCanvasRef s1 = Some c1 \<and>
           \<not> pdfIsDrawing s1 \<and>
           (pdfHistoryRef s1, pdfHistoryIndexRef s1) =
             pushHistory (getImageData c1) (pdfHistoryRef s0, pdfHistoryIndexRef s0)"
  using assms
  by (auto simp: pdfHandlePointerUp_def pdfDuring_def pdfSaveToHistory_def Let_def
        split: option.splits)

lemmas pdf_eval = samplePdf_def pdfOpen_def renderPage_def currentPage_def samplePage_def
  sampleProxy_def newCanvas_def Let_def

lemma samplePdf_canvas:
  "drawingCanvasRef (samplePdf\<lparr>isEditingDrawing := True\<rparr>) = Some (newCanvas 800 1000) \<and>
   isEditingDrawing (samplePdf\<lparr>isEditingDrawing := True\<rparr>)"
  by (simp add: pdf_eval)

lemma open_canvas: "\<exists>c. canvasRef (openCell None 800 400) = Some c"
  by (simp add: eval_defs)

lemmas mini_eval = miniOpen_def miniMount_def miniInitEffect_def miniBgEffect_def
  miniDrawBackground_def CANVAS_WIDTH_def newCanvas_def fillRect_def emit_def fillBrush_def
  strokeBrush_def Let_def miniDispatch_def handleResizeStart_def handleMouseMove_def
  setCanvasHeight_def miniHandlePointerDown_def miniHandlePointerMove_def
  miniHandlePointerUp_def miniGetCanvasPoint_def miniDrawShape_def clearPreview_def
  isShapeTool_def clearRect_def strokeRect_def beginPath_def rectGesture_def miniEvent400_def

text \<open>
  Claim C2, as amended. On the drawing cell and on the PDF annotation overlay, in edit mode,
  a completed gesture pushes exactly one history entry, and pushes it at the pointer-up (or
  pointer-leave): after the pointer-down and any number of pointer-moves the history and the
  cursor are what they were before the gesture, and the handler that ends the gesture makes
  the one push, of the ink layer as the gesture left it.
\<close>

theorem one_push_per_gesture:
  assumes "canvasRef s = Some c0" and "isEditing s"
    and "drawingCanvasRef p = Some d0" and "isEditingDrawing p"
  shows "(\<exists>s1 s2 c2.
            run (PointerDown dn # map PointerMove ms) s = Inr s1 \<and>
            historyRef s1 = historyRef s \<and> historyIndexRef s1 = historyIndexRef s \<and>
            run [if lv then PointerLeave up else PointerUp up] s1 = Inr s2 \<and>
            canvasRef s2 = Some c2 \<and>
            (historyRef s2, historyIndexRef s2) =
              pushHistory (getImageData c2) (historyRef s, historyIndexRef s)) \<and>
         (\<exists>p1 p2 d2.
            pdfRun (PdfPointerDown dn # map PdfPointerMove ms) p = Inr p1 \<and>
            pdfHistoryRef p1 = pdfHistoryRef p \<and> pdfHistoryIndexRef p1 = pdfHistoryIndexRef p \<and>
            pdfRun [if lv then PdfPointerLeave up else PdfPointerUp up] p1 = Inr p2 \<and>
            drawingCanvasRef p2 = Some d2 \<and>
            (pdfHistoryRef p2, pdfHistoryIndexRef p2) =
              pushHistory (getImageData d2) (pdfHistoryRef p, pdfHistoryIndexRef p))"
proof
  obtain s0 where s0: "handlePointerDown dn s = Inr s0" "during s s0"
    using down_during [OF assms(2,1)] by blast
  obtain s1 where s1: "run (map PointerMove ms) s0 = Inr s1" "during s s1"
    using moves_during [OF s0(2)] by blast
  obtain s2 c2 where s2: "handlePointerUp up s1 = Inr s2" "canvasRef s2 = Some c2"
    "(historyRef s2, historyIndexRef s2) =
       pushHistory (getImageData c2) (historyRef s, historyIndexRef s)"
    using up_during [OF s1(2), of up] by blast
  have a: "run (PointerDown dn # map PointerMove ms) s = Inr s1"
    using s0(1) s1(1) by (simp add: dispatch_def)
  have b: "run [if lv then PointerLeave up else PointerUp up] s1 = Inr s2"
    using s2(1) by (simp add: dispatch_def)
  have c: "historyRef s1 = historyRef s" "historyIndexRef s1 = historyIndexRef s"
    using s1(2) by (simp_all add: during_def)
  show "\<exists>s1 s2 c2.
            run (PointerDown dn # map PointerMove ms) s = Inr s1 \<and>
            historyRef s1 = historyRef s \<and> historyIndexRef s1 = historyIndexRef s \<and>
            run [if lv then PointerLeave up else PointerUp up] s1 = Inr s2 \<and>
            canvasRef s2 = Some c2 \<and>
            (historyRef s2, historyIndexRef s2) =
              pushHistory (getImageData c2) (historyRef s, historyIndexRef s)"
    using a b c s2(2,3) by blast
next
  obtain p0 where p0: "pdfHandlePointerDown dn p = Inr p0" "pdfDuring p p0"
    using pdf_down_during [OF assms(4,3)] by blast
  obtain p1 where p1: "pdfRun (map PdfPointerMove ms) p0 = Inr p1" "pdfDuring p p1"
    using pdf_moves_during [OF p0(2)] by blast
  obtain p2 d2 where p2: "pdfHandlePointerUp up p1 = Inr p2" "drawingCanvasRef p2 = Some d2"
    "(pdfHistoryRef p2, pdfHistoryIndexRef p2) =
       pushHistory (getImageData d2) (pdfHistoryRef p, pdfHistoryIndexRef p)"
    using pdf_up_during [OF p1(2), of up] by blast
  have a: "pdfRun (PdfPointerDown dn # map PdfPointerMove ms) p = Inr p1"
    using p0(1) p1(1) by (simp add: pdfDispatch_def)
  have b: "pdfRun [if lv then PdfPointerLeave up else PdfPointerUp up] p1 = Inr p2"
    using p2(1) by (simp add: pdfDispatch_def)
  have c: "pdfHistoryRef p1 = pdfHistoryRef p" "pdfHistoryIndexRef p1 = pdfHistoryIndexRef p"
    using p1(2) by (simp_all add: pdfDuring_def)
  show "\<exists>p1 p2 d2.
            pdfRun (PdfPointerDown dn # map PdfPointerMove ms) p = Inr p1 \<and>
            pdfHistoryRef p1 = pdfHistoryRef p \<and> pdfHistoryIndexRef p1 = pdfHistoryIndexRef p \<and>
            pdfRun [if lv then PdfPointerLeave up else PdfPointerUp up] p1 = Inr p2 \<and>
            drawingCanvasRef p2 = Some d2 \<and>
            (pdfHistoryRef p2, pdfHistoryIndexRef p2) =
              pushHistory (getImageData d2) (pdfHistoryRef p, pdfHistoryIndexRef p)"
    using a b c p2(2,3) by blast
qed

theorem one_push_per_gesture_witness:
  "(\<exists>c0. canvasRef (openCell None 800 400) = Some c0) \<and> isEditing (openCell None 800 400) \<and>
   (\<exists>d0. drawingCanvasRef (samplePdf\<lparr>isEditingDrawing := True\<rparr>) = Some d0) \<and>
   isEditingDrawing (samplePdf\<lparr>isEditingDrawing := True\<rparr>) \<and>
   (\<exists>s1 s2 c2.
      run (PointerDown (sampleEvent 10 10) # map PointerMove [sampleEvent 20 20, sampleEvent 30 30])
        (openCell None 800 400) = Inr s1 \<and>
      historyRef s1 = historyRef (openCell None 800 400) \<and>
      historyIndexRef s1 = historyIndexRef (openCell None 800 400) \<and>
      run [if False then PointerLeave (sampleEvent 30 30) else PointerUp (sampleEvent 30 30)] s1
        = Inr s2 \<and>
      canvasRef s2 = Some c2 \<and>
      (historyRef s2, historyIndexRef s2) =
        pushHistory (getImageData c2)
          (historyRef (openCell None 800 400), historyIndexRef (openCell None 800 400))) \<and>
   (\<exists>p1 p2 d2.
      pdfRun (PdfPointerDown (sampleEvent 10 10) #
                map PdfPointerMove [sampleEvent 20 20, sampleEvent 30 30])
        (samplePdf\<lparr>isEditingDrawing := True\<rparr>) = Inr p1 \<and>
      pdfHistoryRef p1 = pdfHistoryRef (samplePdf\<lparr>isEditingDrawing := True\<rparr>) \<and>
      pdfHistoryIndexRef p1 = pdfHistoryIndexRef (samplePdf\<lparr>isEditingDrawing := True\<rparr>) \<and>
      pdfRun [if False then PdfPointerLeave (sampleEvent 30 30)
              else PdfPointerUp (sampleEvent 30 30)] p1 = Inr p2 \<and>
      drawingCanvasRef p2 = Some d2 \<and>
      (pdfHistoryRef p2, pdfHistoryIndexRef p2) =
        pushHistory (getImageData d2)
          (pdfHistoryRef (samplePdf\<lparr>isEditingDrawing := True\<rparr>),
           pdfHistoryIndexRef (samplePdf\<lparr>isEditingDrawing := True\<rparr>)))"
proof -
  obtain c0 where a: "canvasRef (openCell None 800 400) = Some c0" using open_canvas by blast
  have b: "isEditing (openCell None 800 400)" using open_inSync by simp
  have c: "drawingCanvasRef (samplePdf\<lparr>isEditingDrawing := True\<rparr>) = Some (newCanvas 800 1000)"
    and d: "isEditingDrawing (samplePdf\<lparr>isEditingDrawing := True\<rparr>)"
    using samplePdf_canvas by simp_all
  show ?thesis
    using a b c d
      one_push_per_gesture [OF a b c d, of "sampleEvent 10 10"
        "[sampleEvent 20 20, sampleEvent 30 30]" False "sampleEvent 30 30"]
    by blast
qed

text \<open>
  Claim C2 as stated fails on the mini drawing cell: a rectangle gesture with three
  pointer-moves draws the rectangle on the ink layer and no history entry is produced,
  since that component keeps no history.
\<close>

theorem mini_gesture_no_history:
  "map_sum id (\<lambda>m. (surfaceHistory (MiniSurface m), surfaceInk (MiniSurface m)))
     (miniRun rectGesture (miniOpen None 150 Blank)) =
   Inr ([],
        Some [FillRect \<lparr>paintColour = ''#ffffff'', paintWidth = 1, paintCap = Butt,
                paintJoin = Miter, paintAlpha = 1, paintOp = SourceOver\<rparr> 0 0 400 150,
              StrokeRect \<lparr>paintColour = ''#000000'', paintWidth = 2, paintCap = Round,
                paintJoin = Miter, paintAlpha = 1, paintOp = SourceOver\<rparr> 10 10 40 30])"
  by (simp add: mini_eval)

section \<open>The height of the mini drawing cell\<close>

lemma mini_effects_keep:
  "canvasHeight (miniInitEffect s) = canvasHeight s"
  "canvasHeight (miniBgEffect s) = canvasHeight s"
  "resizeStartY (miniInitEffect s) = resizeStartY s"
  "resizeStartY (miniBgEffect s) = resizeStartY s"
  "resizeStartHeight (miniInitEffect s) = resizeStartHeight s"
  "resizeStartHeight (miniBgEffect s) = resizeStartHeight s"
  "miniIsResizing (miniInitEffect s) = miniIsResizing s"
  "miniIsResizing (miniBgEffect s) = miniIsResizing s"
  by (simp_all add: miniInitEffect_def miniBgEffect_def Let_def split: option.splits)

lemma setCanvasHeight_keeps:
  "canvasHeight (setCanvasHeight h s) = h"
  "resizeStartY (setCanvasHeight h s) = resizeStartY s"
  "resizeStartHeight (setCanvasHeight h s) = resizeStartHeight s"
  "miniIsResizing (setCanvasHeight h s) = miniIsResizing s"
  by (simp_all add: setCanvasHeight_def mini_effects_keep)

lemma handleMouseMove_height:
  "canvasHeight (handleMouseMove y s) = max 100 (min 600 (resizeStartHeight s + (y - resizeStartY s)))"
  "resizeStartY (handleMouseMove y s) = resizeStartY s"
  "resizeStartHeight (handleMouseMove y s) = resizeStartHeight s"
  "miniIsResizing (handleMouseMove y s) = miniIsResizing s"
  by (simp_all add: handleMouseMove_def Let_def setCanvasHeight_keeps)

lemma moves_height:
  assumes "miniIsResizing s" "ys \<noteq> []"
  shows "\<exists>s1. miniRun (map MiniMouseMove ys) s = Inr s1 \<and>
           canvasHeight s1 = max 100 (min 600 (resizeStartHeight s + (last ys - resizeStartY s)))"
  using assms
proof (induction ys arbitrary: s)
  case Nil
  then show ?case by simp
next
  case (Cons y ys)
  let ?s1 = "handleMouseMove y s"
  have d: "miniDispatch (MiniMouseMove y) s = Inr ?s1"
    using Cons.prems(1) by (simp add: miniDispatch_def)
  show ?case
  proof (cases "ys = []")
    case True
    then show ?thesis using d handleMouseMove_height(1) [of y s] by simp
  next
    case False
    have r: "miniIsResizing ?s1" using Cons.prems(1) by (simp add: handleMouseMove_height)
    obtain s2 where "miniRun (map MiniMouseMove ys) ?s1 = Inr s2"
      "canvasHeight s2 = max 100 (min 600 (resizeStartHeight ?s1 + (last ys - resizeStartY ?s1)))"
      using Cons.IH [OF r False] by blast
    then show ?thesis using d False by (simp add: handleMouseMove_height)
  qed
qed

text \<open>
  Claim C9. During a drag of the resize handle that starts at \<open>y0\<close> on a mini drawing cell in
  edit mode, after any sequence of mouse-moves the canvas height is
  \<open>max 100 (min 600 (startHeight + deltaY))\<close>, with \<open>deltaY\<close> the distance of the last move from
  \<open>y0\<close>, and so lies in the closed interval from 100 to 600.
\<close>

theorem resize_clamped:
  assumes "miniIsEditing s" and "ys \<noteq> []"
  shows "\<exists>s1. miniRun (MiniResizeStart y0 # map MiniMouseMove ys) s = Inr s1 \<and>
           canvasHeight s1 = max 100 (min 600 (canvasHeight s + (last ys - y0))) \<and>
           100 \<le> canvasHeight s1 \<and> canvasHeight s1 \<le> 600"
proof -
  let ?s0 = "handleResizeStart y0 s"
  have d: "miniDispatch (MiniResizeStart y0) s = Inr ?s0"
    using assms(1) by (simp add: miniDispatch_def)
  have r: "miniIsResizing ?s0" by (simp add: handleResizeStart_def)
  obtain s1 where s1: "miniRun (map MiniMouseMove ys) ?s0 = Inr s1"
    "canvasHeight s1 = max 100 (min 600 (resizeStartHeight ?s0 + (last ys - resizeStartY ?s0)))"
    using moves_height [OF r assms(2)] by blast
  have "canvasHeight s1 = max 100 (min 600 (canvasHeight s + (last ys - y0)))"
    using s1(2) by (simp add: handleResizeStart_def)
  then show ?thesis using d s1(1) by simp
qed

theorem resize_clamped_witness:
  "miniIsEditing (miniOpen None 150 Blank) \<and> [900, 20] \<noteq> ([]::real list) \<and>
   (\<exists>s1. miniRun (MiniResizeStart 100 # map MiniMouseMove [900, 20]) (miniOpen None 150 Blank)
            = Inr s1 \<and>
      canvasHeight s1 = max 100 (min 600 (canvasHeight (miniOpen None 150 Blank) + (last [900, 20] - 100))) \<and>
      100 \<le> canvasHeight s1 \<and> canvasHeight s1 \<le> 600)"
proof -
  have a: "miniIsEditing (miniOpen None 150 Blank)" by (simp add: mini_eval)
  have b: "[900, 20] \<noteq> ([]::real list)" by simp
  show ?thesis using a b resize_clamped [OF a b, of 100] by blast
qed

section \<open>Blend settings on the PDF overlay\<close>

text \<open>
  Claim C10. After every freehand segment on the PDF annotation overlay, with any tool, the
  context's \<open>globalCompositeOperation\<close> is \<open>source-over\<close> and its \<open>globalAlpha\<close> is 1.
\<close>

theorem pdfDrawLine_restores:
  "globalCompositeOperation (pdfDrawLine s from to ctx) = SourceOver \<and>
   globalAlpha (pdfDrawLine s from to ctx) = 1"
  by (simp add: pdfDrawLine_def Let_def)

section \<open>Superseded page renders\<close>

lemmas pdf_run_eval = pdf_eval pdfDispatch_def setCurrentPageIndex_def renderCleanup_def
  cancelTask_def getPageResolved_def renderSettled_def loadOverlay_def removeAt_def
  pdfSaveToHistory_def pushHistory_def slice0_def clearRect_def getImageData_def emit_def
  pageSwitchDuringGetPage_def pageSwitchDuringRender_def pagePicture_def baseLayer_def

text \<open>
  When the page is switched after the render of the earlier page has started, that render is
  cancelled, its settlement is dropped without a report, and the base layer holds the last
  page requested only.
\<close>

lemma superseded_render_cancelled:
  "map_sum id (\<lambda>s. (currentPageIndex s, map cancelled (renderTasks s), baseLayer s,
                      length (pdfHistoryRef s), consoleErrors s))
     (pdfRun pageSwitchDuringRender samplePdf) =
   Inr (2, [False, True, False], Some [pagePicture ''#0000aa''], 2, [])"
  by (simp add: pdf_run_eval)

text \<open>
  Claim C6 fails when the page is switched while \<open>getPage\<close> of the earlier request is
  pending: no render task exists yet, so nothing is cancelled; the earlier request goes on
  to render page 2, and when that render completes after the render of page 3 its picture
  is the one on top of the base layer and its overlay handling pushes a history entry,
  while the current page is page 3.
\<close>

theorem superseded_render_applied:
  "map_sum id (\<lambda>s. (currentPageIndex s, map cancelled (renderTasks s), baseLayer s,
                      length (pdfHistoryRef s)))
     (pdfRun pageSwitchDuringGetPage samplePdf) =
   Inr (2, [False, False, False], Some [pagePicture ''#0000aa'', pagePicture ''#00aa00''], 3)"
  by (simp add: pdf_run_eval)

section \<open>Pixels of the background pattern\<close>

lemma paintOver_append:
  "paintOver p u (xs @ ys) = paintOver p (paintOver p u xs) ys"
  by (induction p u xs rule: paintOver.induct) simp_all

lemma pixelAt_emit:
  "pixelAt (raster (emit q c)) p = paintOver p (pixelAt (raster c) p) [q]"
  by (simp add: pixelAt_def emit_def paintOver_append)

lemma drop_square: "0 \<le> (B::real) \<Longrightarrow> 4 * (A + B) \<le> C \<Longrightarrow> 4 * A \<le> C"
  by (simp add: distrib_left)

lemma drop_square': "0 \<le> (B::real) \<Longrightarrow> 4 * (B + A) \<le> C \<Longrightarrow> 4 * A \<le> C"
  by (simp add: distrib_left)

lemma nearSegment_vertical:
  assumes "0 < snd p" "snd p < h"
  shows "nearSegment cap w (x, 0) (x, h) p \<longleftrightarrow> 4 * ((fst p - x) * (fst p - x)) \<le> w * w"
proof -
  let ?e = "fst p - x"
  have h: "0 < h" using assms by simp
  have hh: "0 < h * h" using h by simp
  have slab: "0 \<le> snd p * h" "snd p * h \<le> h * h"
    using assms h by (simp_all add: mult_le_cancel_right)
  have main: "4 * (?e * h * (?e * h)) \<le> w * w * (h * h) \<longleftrightarrow> 4 * (?e * ?e) \<le> w * w"
  proof -
    have "4 * (?e * h * (?e * h)) = (4 * (?e * ?e)) * (h * h)" by (simp add: algebra_simps)
    then show ?thesis using hh by (simp only: mult_le_cancel_right_pos)
  qed
  have cap1: "4 * (?e * ?e + snd p * snd p) \<le> w * w \<Longrightarrow> 4 * (?e * ?e) \<le> w * w"
    by (rule drop_square [of "snd p * snd p"]) simp_all
  have cap2: "4 * (?e * ?e + (snd p - h) * (snd p - h)) \<le> w * w \<Longrightarrow> 4 * (?e * ?e) \<le> w * w"
    by (rule drop_square [of "(snd p - h) * (snd p - h)"]) simp_all
  show ?thesis
    using hh slab main cap1 cap2 by (auto simp: nearSegment_def Let_def)
qed

lemma nearSegment_horizontal:
  assumes "0 < fst p" "fst p < wd"
  shows "nearSegment cap w (0, y) (wd, y) p \<longleftrightarrow> 4 * ((snd p - y) * (snd p - y)) \<le> w * w"
proof -
  let ?e = "snd p - y"
  have h: "0 < wd" using assms by simp
  have hh: "0 < wd * wd" using h by simp
  have slab: "0 \<le> fst p * wd" "fst p * wd \<le> wd * wd"
    using assms h by (simp_all add: mult_le_cancel_right)
  have main: "4 * (?e * wd * (?e * wd)) \<le> w * w * (wd * wd) \<longleftrightarrow> 4 * (?e * ?e) \<le> w * w"
  proof -
    have "4 * (?e * wd * (?e * wd)) = (4 * (?e * ?e)) * (wd * wd)" by (simp add: algebra_simps)
    then show ?thesis using hh by (simp only: mult_le_cancel_right_pos)
  qed
  have cap1: "4 * (fst p * fst p + ?e * ?e) \<le> w * w \<Longrightarrow> 4 * (?e * ?e) \<le> w * w"
    by (rule drop_square' [of "fst p * fst p"]) simp_all
  have cap2: "4 * ((fst p - wd) * (fst p - wd) + ?e * ?e) \<le> w * w \<Longrightarrow> 4 * (?e * ?e) \<le> w * w"
    by (rule drop_square' [of "(fst p - wd) * (fst p - wd)"]) simp_all
  show ?thesis
    using hh slab main cap1 cap2 by (auto simp: nearSegment_def Let_def)
qed

lemma blend_cong:
  assumes "paintColour b = paintColour b'" "paintAlpha b = paintAlpha b'" "paintOp b = paintOp b'"
  shows "blend b u = blend b' u"
  using assms by (simp add: blend_def)

lemma vLine_sameAt:
  assumes "sameAt p c c'" "0 < snd p" "snd p < h"
  shows "sameAt p (vLine h x c) (vLine h x c')"
proof -
  have b: "blend (strokeBrush (lineTo x h (moveTo x 0 (beginPath c)))) u =
           blend (strokeBrush (lineTo x h (moveTo x 0 (beginPath c')))) u" for u
    using assms(1)
    by (intro blend_cong) (simp_all add: sameAt_def strokeBrush_def lineTo_def moveTo_def beginPath_def)
  have px: "pixelAt (raster (vLine h x c)) p =
      (if 4 * ((fst p - x) * (fst p - x)) \<le> lineWidth c * lineWidth c
       then blend (strokeBrush (lineTo x h (moveTo x 0 (beginPath c)))) (pixelAt (raster c) p)
       else pixelAt (raster c) p)" for c
    using nearSegment_vertical [OF assms(2,3)]
    by (simp add: vLine_def stroke_def pixelAt_emit)
       (simp add: lineTo_def moveTo_def beginPath_def strokeBrush_def)
  show ?thesis
    using assms(1) b unfolding sameAt_def px
    by (simp add: vLine_def stroke_def emit_def lineTo_def moveTo_def beginPath_def)
qed

lemma hLine_sameAt:
  assumes "sameAt p c c'" "0 < fst p" "fst p < w"
  shows "sameAt p (hLine w y c) (hLine w y c')"
proof -
  have b: "blend (strokeBrush (lineTo w y (moveTo 0 y (beginPath c)))) u =
           blend (strokeBrush (lineTo w y (moveTo 0 y (beginPath c')))) u" for u
    using assms(1)
    by (intro blend_cong) (simp_all add: sameAt_def strokeBrush_def lineTo_def moveTo_def beginPath_def)
  have px: "pixelAt (raster (hLine w y c)) p =
      (if 4 * ((snd p - y) * (snd p - y)) \<le> lineWidth c * lineWidth c
       then blend (strokeBrush (lineTo w y (moveTo 0 y (beginPath c)))) (pixelAt (raster c) p)
       else pixelAt (raster c) p)" for c
    using nearSegment_horizontal [OF assms(2,3)]
    by (simp add: hLine_def stroke_def pixelAt_emit)
       (simp add: lineTo_def moveTo_def beginPath_def strokeBrush_def)
  show ?thesis
    using assms(1) b unfolding sameAt_def px
    by (simp add: hLine_def stroke_def emit_def lineTo_def moveTo_def beginPath_def)
qed

lemma dot_sameFillAt:
  assumes "sameFillAt p c c'"
  shows "sameFillAt p (dot x y c) (dot x y c')"
proof -
  have b: "blend (fillBrush (arc x y 1.5 0 (pi * 2) (beginPath c))) u =
           blend (fillBrush (arc x y 1.5 0 (pi * 2) (beginPath c'))) u" for u
    using assms(1)
    by (intro blend_cong) (simp_all add: sameFillAt_def fillBrush_def arc_def beginPath_def)
  show ?thesis
    using assms(1) b unfolding sameFillAt_def
    by (simp add: dot_def fill_def pixelAt_emit)
       (simp add: emit_def arc_def beginPath_def)
qed

lemma forGrid_rel:
  assumes body: "\<And>x c c'. R c c' \<Longrightarrow> R (body x c) (body x c')"
    and start: "R c c'"
  shows "R (forGrid v bound body c) (forGrid v bound body c')"
  using body start
proof (induction v bound body c arbitrary: c' rule: forGrid.induct)
  case (1 v bound body c)
  show ?case
  proof (cases "v < bound")
    case True
    have step: "R (body v c) (body v c')" by (rule "1.prems"(1)) (rule "1.prems"(2))
    have "R (forGrid (v + gridSize) bound body (body v c))
            (forGrid (v + gridSize) bound body (body v c'))"
      by (rule "1.IH" [OF True "1.prems"(1) step])
    moreover have "forGrid v bound body c = forGrid (v + gridSize) bound body (body v c)"
      using True by (subst forGrid.simps) simp
    moreover have "forGrid v bound body c' = forGrid (v + gridSize) bound body (body v c')"
      using True by (subst forGrid.simps) simp
    ultimately show ?thesis by simp
  next
    case False
    have "forGrid v bound body c = c" using False by (subst forGrid.simps) simp
    moreover have "forGrid v bound body c' = c'" using False by (subst forGrid.simps) simp
    ultimately show ?thesis using "1.prems"(2) by simp
  qed
qed

lemma dots_sameFillAt:
  assumes "sameFillAt p c c'"
  shows "sameFillAt p (forGrid gridSize w (\<lambda>x. forGrid gridSize h (dot x)) c)
           (forGrid gridSize w (\<lambda>x. forGrid gridSize h (dot x)) c')"
proof (rule forGrid_rel [where R = "sameFillAt p"])
  fix x c c'
  assume r: "sameFillAt p c c'"
  show "sameFillAt p (forGrid gridSize h (dot x) c) (forGrid gridSize h (dot x) c')"
    by (rule forGrid_rel [where R = "sameFillAt p"]) (rule dot_sameFillAt, assumption, rule r)
next
  show "sameFillAt p c c'" by (rule assms)
qed

lemma vLines_sameAt:
  assumes "sameAt p c c'" "0 < snd p" "snd p < h"
  shows "sameAt p (forGrid gridSize w (vLine h) c) (forGrid gridSize w (vLine h) c')"
proof (rule forGrid_rel [where R = "sameAt p"])
  fix x c c'
  assume "sameAt p c c'"
  then show "sameAt p (vLine h x c) (vLine h x c')" using assms(2,3) by (rule vLine_sameAt)
next
  show "sameAt p c c'" by (rule assms(1))
qed

lemma hLines_sameAt:
  assumes "sameAt p c c'" "0 < fst p" "fst p < w"
  shows "sameAt p (forGrid gridSize h (hLine w) c) (forGrid gridSize h (hLine w) c')"
proof (rule forGrid_rel [where R = "sameAt p"])
  fix y c c'
  assume "sameAt p c c'"
  then show "sameAt p (hLine w y c) (hLine w y c')" using assms(2,3) by (rule hLine_sameAt)
next
  show "sameAt p c c'" by (rule assms(1))
qed

lemma fill_pixel:
  assumes "globalAlpha c = 1" "globalCompositeOperation c = SourceOver"
    "0 < fst p" "fst p < w" "0 < snd p" "snd p < h"
  shows "pixelAt (raster (fillRect 0 0 w h (c\<lparr>fillStyle := col\<rparr>))) p = Solid col"
  using assms
  by (simp add: fillRect_def pixelAt_emit fillBrush_def blend_def inRect_def)

lemma fill_attrs:
  "fillStyle (fillRect 0 0 w h (c\<lparr>fillStyle := col\<rparr>)) = col"
  "strokeStyle (fillRect 0 0 w h (c\<lparr>fillStyle := col\<rparr>)) = strokeStyle c"
  "lineWidth (fillRect 0 0 w h (c\<lparr>fillStyle := col\<rparr>)) = lineWidth c"
  "globalAlpha (fillRect 0 0 w h (c\<lparr>fillStyle := col\<rparr>)) = globalAlpha c"
  "globalCompositeOperation (fillRect 0 0 w h (c\<lparr>fillStyle := col\<rparr>)) =
     globalCompositeOperation c"
  by (simp_all add: fillRect_def emit_def)

lemma drawBackground_pixels:
  assumes "globalAlpha c = 1" "globalCompositeOperation c = SourceOver"
    and "globalAlpha c' = 1" "globalCompositeOperation c' = SourceOver"
    and "0 < fst p" "fst p < w" "0 < snd p" "snd p < h"
  shows "pixelAt (raster (drawBackground c w h t d)) p =
         pixelAt (raster (drawBackground c' w h t d)) p"
proof -
  let ?c1 = "fillRect 0 0 w h (c\<lparr>fillStyle := bgColor d\<rparr>)"
  let ?c1' = "fillRect 0 0 w h (c'\<lparr>fillStyle := bgColor d\<rparr>)"
  have px: "pixelAt (raster ?c1) p = pixelAt (raster ?c1') p"
    using fill_pixel [OF assms(1,2,5-8)] fill_pixel [OF assms(3,4,5-8)] by simp
  have lines: "sameAt p (?c1\<lparr>strokeStyle := gridColor d, lineWidth := 1\<rparr>)
                 (?c1'\<lparr>strokeStyle := gridColor d, lineWidth := 1\<rparr>)"
    using px assms(1-4) by (simp add: sameAt_def fill_attrs)
  have dots: "sameFillAt p (?c1\<lparr>fillStyle := gridColor d\<rparr>) (?c1'\<lparr>fillStyle := gridColor d\<rparr>)"
    using px assms(1-4) by (simp add: sameFillAt_def fill_attrs)
  show ?thesis
  proof (cases t)
    case Blank
    then show ?thesis using px by (simp add: drawBackground_def Let_def)
  next
    case Grid
    have "sameAt p (forGrid gridSize h (hLine w) (forGrid gridSize w (vLine h)
              (?c1\<lparr>strokeStyle := gridColor d, lineWidth := 1\<rparr>)))
            (forGrid gridSize h (hLine w) (forGrid gridSize w (vLine h)
              (?c1'\<lparr>strokeStyle := gridColor d, lineWidth := 1\<rparr>)))"
      by (rule hLines_sameAt [OF vLines_sameAt [OF lines assms(7,8)] assms(5,6)])
    then show ?thesis using Grid by (simp add: drawBackground_def Let_def sameAt_def)
  next
    case Lines
    have "sameAt p (forGrid gridSize h (hLine w)
              (?c1\<lparr>strokeStyle := gridColor d, lineWidth := 1\<rparr>))
            (forGrid gridSize h (hLine w)
              (?c1'\<lparr>strokeStyle := gridColor d, lineWidth := 1\<rparr>))"
      by (rule hLines_sameAt [OF lines assms(5,6)])
    then show ?thesis using Lines by (simp add: drawBackground_def Let_def sameAt_def)
  next
    case Dots
    have "sameFillAt p (forGrid gridSize w (\<lambda>x. forGrid gridSize h (dot x))
              (?c1\<lparr>fillStyle := gridColor d\<rparr>))
            (forGrid gridSize w (\<lambda>x. forGrid gridSize h (dot x))
              (?c1'\<lparr>fillStyle := gridColor d\<rparr>))"
      by (rule dots_sameFillAt [OF dots])
    then show ?thesis using Dots by (simp add: drawBackground_def Let_def sameFillAt_def)
  qed
qed

lemma miniDrawBackground_pixels:
  assumes "globalAlpha c = 1" "globalCompositeOperation c = SourceOver"
    and "globalAlpha c' = 1" "globalCompositeOperation c' = SourceOver"
    and "0 < fst p" "fst p < w" "0 < snd p" "snd p < h"
  shows "pixelAt (raster (miniDrawBackground c w h t)) p =
         pixelAt (raster (miniDrawBackground c' w h t)) p"
proof -
  let ?c1 = "fillRect 0 0 w h (c\<lparr>fillStyle := ''#ffffff''\<rparr>)"
  let ?c1' = "fillRect 0 0 w h (c'\<lparr>fillStyle := ''#ffffff''\<rparr>)"
  let ?c2 = "?c1\<lparr>strokeStyle := ''#e5e7eb'', fillStyle := ''#e5e7eb'', lineWidth := 1\<rparr>"
  let ?c2' = "?c1'\<lparr>strokeStyle := ''#e5e7eb'', fillStyle := ''#e5e7eb'', lineWidth := 1\<rparr>"
  have px: "pixelAt (raster ?c1) p = pixelAt (raster ?c1') p"
    using fill_pixel [OF assms(1,2,5-8)] fill_pixel [OF assms(3,4,5-8)] by simp
  have lines: "sameAt p ?c2 ?c2'"
    using px assms(1-4) by (simp add: sameAt_def fill_attrs)
  have dots: "sameFillAt p ?c2 ?c2'"
    using px assms(1-4) by (simp add: sameFillAt_def fill_attrs)
  show ?thesis
  proof (cases t)
    case Blank
    then show ?thesis using px by (simp add: miniDrawBackground_def Let_def)
  next
    case Grid
    have "sameAt p (forGrid gridSize h (hLine w) (forGrid gridSize w (vLine h) ?c2))
            (forGrid gridSize h (hLine w) (forGrid gridSize w (vLine h) ?c2'))"
      by (rule hLines_sameAt [OF vLines_sameAt [OF lines assms(7,8)] assms(5,6)])
    then show ?thesis using Grid by (simp add: miniDrawBackground_def Let_def sameAt_def)
  next
    case Lines
    have "sameAt p (forGrid gridSize h (hLine w) ?c2) (forGrid gridSize h (hLine w) ?c2')"
      by (rule hLines_sameAt [OF lines assms(5,6)])
    then show ?thesis using Lines by (simp add: miniDrawBackground_def Let_def sameAt_def)
  next
    case Dots
    have "sameFillAt p (forGrid gridSize w (\<lambda>x. forGrid gridSize h (dot x)) ?c2)
            (forGrid gridSize w (\<lambda>x. forGrid gridSize h (dot x)) ?c2')"
      by (rule dots_sameFillAt [OF dots])
    then show ?thesis using Dots by (simp add: miniDrawBackground_def Let_def sameFillAt_def)
  qed
qed

text \<open>
  Claim C7. The background pattern is a function of its arguments alone. On any two
  canvases in the default blend state (alpha 1 and \<open>source-over\<close>, which the drawing cell and
  the mini cell never change), whatever they showed before and whatever styles, line width,
  caps, joins and path they were left with, \<open>drawBackground\<close> with the same width, height,
  pattern and palette leaves the same pixel at every point inside the area, and so does the
  mini cell's \<open>drawBackground\<close>: two invocations agree, and painting over an existing raster
  agrees with painting on a fresh canvas.
\<close>

theorem background_deterministic:
  assumes "globalAlpha c = 1" and "globalCompositeOperation c = SourceOver"
    and "globalAlpha c' = 1" and "globalCompositeOperation c' = SourceOver"
    and "0 < fst p" and "fst p < w" and "0 < snd p" and "snd p < h"
  shows "pixelAt (raster (drawBackground c w h t d)) p =
           pixelAt (raster (drawBackground c' w h t d)) p \<and>
         pixelAt (raster (miniDrawBackground c w h t)) p =
           pixelAt (raster (miniDrawBackground c' w h t)) p"
  using drawBackground_pixels [OF assms] miniDrawBackground_pixels [OF assms] by simp

theorem background_deterministic_witness:
  "globalAlpha usedCanvas = 1 \<and> globalCompositeOperation usedCanvas = SourceOver \<and>
   globalAlpha (newCanvas 800 400) = 1 \<and>
   globalCompositeOperation (newCanvas 800 400) = SourceOver \<and>
   0 < fst (20.5 :: real, 10.5 :: real) \<and> fst (20.5 :: real, 10.5 :: real) < 800 \<and>
   0 < snd (20.5 :: real, 10.5 :: real) \<and> snd (20.5 :: real, 10.5 :: real) < 400 \<and>
   pixelAt (raster (drawBackground usedCanvas 800 400 Grid False)) (20.5, 10.5) =
     pixelAt (raster (drawBackground (newCanvas 800 400) 800 400 Grid False)) (20.5, 10.5) \<and>
   pixelAt (raster (miniDrawBackground usedCanvas 800 400 Grid)) (20.5, 10.5) =
     pixelAt (raster (miniDrawBackground (newCanvas 800 400) 800 400 Grid)) (20.5, 10.5)"
proof -
  have a: "globalAlpha usedCanvas = 1" "globalCompositeOperation usedCanvas = SourceOver"
    "globalAlpha (newCanvas 800 400) = 1"
    "globalCompositeOperation (newCanvas 800 400) = SourceOver"
    by (simp_all add: usedCanvas_def newCanvas_def)
  have b: "0 < fst (20.5 :: real, 10.5 :: real)" "fst (20.5 :: real, 10.5 :: real) < 800"
    "0 < snd (20.5 :: real, 10.5 :: real)" "snd (20.5 :: real, 10.5 :: real) < 400"
    by simp_all
  show ?thesis
    using a b background_deterministic [OF a b, of Grid False] by simp
qed

section \<open>The eraser\<close>

lemmas canvas_eval = newCanvas_def fillRect_def emit_def fillBrush_def strokeBrush_def
  stroke_def fill_def lineTo_def moveTo_def beginPath_def arc_def vLine_def hLine_def dot_def
  gridSize_def bgColor_def gridColor_def Let_def

lemmas pixel_eval = pixelAt_def blend_def inRect_def nearSegment_def imageOver_def
  layerOver_def displayAt_def

lemmas cell_eval = openCell_def colorEffect_def bgEffect_def initEffect_def mount_def
  drawBackground_def forGrid.simps saveToHistory_def pushHistory_def slice0_def
  dispatch_def handlePointerDown_def handlePointerMove_def handlePointerUp_def
  getCanvasPoint_def drawLine_def isShapeTool_def getImageData_def eraserColor_def
  sampleEvent_def eraseAcrossRuling_def

text \<open>
  Claim C5, as amended. An eraser segment of the drawing cell, on a context in the default
  blend state, is a stroke in the base colour under \<open>source-over\<close>: every point it covers
  becomes the solid base colour, never transparent, and every other point keeps its pixel.
  An eraser segment on the PDF annotation overlay is a stroke under \<open>destination-out\<close>:
  every point it covers becomes transparent, so that the page under the ink layer shows,
  and every other point keeps its pixel.
\<close>

theorem eraser_pixels:
  assumes "tool s = Eraser" and "globalAlpha ctx = 1"
    and "globalCompositeOperation ctx = SourceOver"
    and "pdfToolState q = PdfEraser" and "globalAlpha pctx = 1"
  shows "pixelAt (raster (drawLine s from to ctx)) p =
           (if nearSegment Round (brushSize s * 8) (px from, py from) (px to, py to) p
            then Solid (bgColor (isDarkMode s)) else pixelAt (raster ctx) p) \<and>
         pixelAt (raster (pdfDrawLine q from to pctx)) p =
           (if nearSegment Round (pdfBrushSize q * 3) (px from, py from) (px to, py to) p
            then Transparent else pixelAt (raster pctx) p)"
proof
  show "pixelAt (raster (drawLine s from to ctx)) p =
           (if nearSegment Round (brushSize s * 8) (px from, py from) (px to, py to) p
            then Solid (bgColor (isDarkMode s)) else pixelAt (raster ctx) p)"
    using assms(1-3)
    by (simp add: drawLine_def Let_def stroke_def pixelAt_emit)
       (simp add: strokeBrush_def lineTo_def moveTo_def beginPath_def blend_def
          eraserColor_def emit_def)
next
  show "pixelAt (raster (pdfDrawLine q from to pctx)) p =
           (if nearSegment Round (pdfBrushSize q * 3) (px from, py from) (px to, py to) p
            then Transparent else pixelAt (raster pctx) p)"
    using assms(4,5)
    by (simp add: pdfDrawLine_def Let_def stroke_def pixelAt_emit)
       (simp add: strokeBrush_def lineTo_def moveTo_def beginPath_def blend_def emit_def)
qed

theorem eraser_pixels_witness:
  "tool ((openCell None 800 400)\<lparr>tool := Eraser\<rparr>) = Eraser \<and>
   globalAlpha (newCanvas 800 400) = 1 \<and>
   globalCompositeOperation (newCanvas 800 400) = SourceOver \<and>
   pdfToolState (samplePdf\<lparr>pdfToolState := PdfEraser\<rparr>) = PdfEraser \<and>
   globalAlpha (newCanvas 800 1000) = 1 \<and>
   pixelAt (raster (drawLine ((openCell None 800 400)\<lparr>tool := Eraser\<rparr>)
       \<lparr>px = 10, py = 10.5, pressure = 0.5\<rparr> \<lparr>px = 30, py = 10.5, pressure = 0.5\<rparr>
       (newCanvas 800 400))) (19.5, 10.5) = Solid ''#ffffff'' \<and>
   pixelAt (raster (pdfDrawLine (samplePdf\<lparr>pdfToolState := PdfEraser\<rparr>)
       \<lparr>px = 10, py = 10.5, pressure = 0.5\<rparr> \<lparr>px = 30, py = 10.5, pressure = 0.5\<rparr>
       (newCanvas 800 1000))) (19.5, 10.5) = Transparent"
proof -
  have a: "tool ((openCell None 800 400)\<lparr>tool := Eraser\<rparr>) = Eraser"
    "globalAlpha (newCanvas 800 400) = 1"
    "globalCompositeOperation (newCanvas 800 400) = SourceOver"
    "pdfToolState (samplePdf\<lparr>pdfToolState := PdfEraser\<rparr>) = PdfEraser"
    "globalAlpha (newCanvas 800 1000) = 1"
    by (simp_all add: newCanvas_def)
  have b: "brushSize ((openCell None 800 400)\<lparr>tool := Eraser\<rparr>) = 3"
    "isDarkMode ((openCell None 800 400)\<lparr>tool := Eraser\<rparr>) = False"
    "pdfBrushSize (samplePdf\<lparr>pdfToolState := PdfEraser\<rparr>) = 3"
    by (simp_all add: eval_defs pdf_eval)
  show ?thesis
    using a b
      eraser_pixels [OF a, of "\<lparr>px = 10, py = 10.5, pressure = 0.5\<rparr>"
        "\<lparr>px = 30, py = 10.5, pressure = 0.5\<rparr>" "(19.5, 10.5)"]
    by (simp add: nearSegment_def bgColor_def)
qed

text \<open>
  Claim C5 as stated fails on a patterned background: the eraser does not reveal the
  pattern. After an eraser stroke across the ruling at x = 20 of a grid background, the cell
  displays the plain base colour at the pixel with centre (19.5, 10.5), where the background
  pattern has the ruling's colour.
\<close>

theorem eraser_hides_ruling:
  "map_sum id (\<lambda>s. (displayAt s (19.5, 10.5),
                      map_option (\<lambda>c. pixelAt (raster c) (19.5, 10.5)) (bgCanvasRef s)))
     (run eraseAcrossRuling (openCell None 800 400)) =
   Inr (Solid ''#ffffff'', Some (Solid ''#e5e7eb''))"
  by (simp add: cell_eval canvas_eval pixel_eval)

section \<open>The ink layer of the drawing cell\<close>

text \<open>
  Claim C4 as stated fails on the drawing cell: the background pattern is painted into the
  ink canvas itself. A freshly opened cell, before any user input, has the background fill
  as its ink layer, and after the grid background is chosen the ink layer shows the
  ruling's colour at the pixel with centre (19.5, 10.5).
\<close>

theorem ink_holds_pattern:
  "map_sum id (\<lambda>s. map_option (\<lambda>c. pixelAt (raster c) (19.5, 10.5)) (canvasRef s))
     (run [SetBackground Grid] (openCell None 800 400)) = Inr (Some (Solid ''#e5e7eb'')) \<and>
   ink (openCell None 800 400) = Some [whiteFill]"
  by (simp add: cell_eval canvas_eval pixel_eval ink_def whiteFill_def)

section \<open>The ink layer of the PDF overlay\<close>

lemma pushHistory_set:
  "set (fst (pushHistory x (h, i))) \<subseteq> insert x (set h)"
proof -
  have t: "set (slice0 (i + 1) h) \<subseteq> set h"
    by (auto simp: slice0_def dest: in_set_takeD)
  have "set (tl (slice0 (i + 1) h @ [x])) \<subseteq> set (slice0 (i + 1) h @ [x])"
    by (cases "slice0 (i + 1) h @ [x]") auto
  then show ?thesis using t by (auto simp: pushHistory_def Let_def)
qed

text \<open>
  What is not ink: a filled or outlined rectangle, a filled path and a cleared rectangle;
  and a stroke that is ink has round caps and is one segment. A background pattern is a
  filled rectangle, butt-capped rulings and filled dots.
\<close>

lemma inkPaint_excludes:
  "\<not> inkPaint S (FillRect b x y w h)"
  "\<not> inkPaint S (StrokeRect b x y w h)"
  "\<not> inkPaint S (FillPath b ops)"
  "\<not> inkPaint S (ClearRect x y w h)"
  by simp_all

lemma inkPaint_stroke:
  assumes "inkPaint S (StrokePath b ops)"
  shows "paintCap b = Round \<and> (\<exists>x y x' y'. ops = [MoveTo x y, LineTo x' y'])"
  using assms by (cases "(S, StrokePath b ops)" rule: inkPaint.cases) auto

lemma inkOnly_simps:
  "inkOnly S []"
  "inkOnly S (r @ [q]) = (inkOnly S r \<and> inkPaint S q)"
  by (auto simp: inkOnly_def)

lemma inv_save:
  assumes "pdfInkOnly S s"
  shows "pdfInkOnly S (pdfSaveToHistory s)"
proof (cases "drawingCanvasRef s")
  case None
  then show ?thesis using assms by (simp add: pdfSaveToHistory_def)
next
  case (Some c)
  let ?h = "fst (pushHistory (getImageData c) (pdfHistoryRef s, pdfHistoryIndexRef s))"
  have sub: "set ?h \<subseteq> insert (getImageData c) (set (pdfHistoryRef s))"
    by (rule pushHistory_set)
  have c: "inkOnly S (raster c)"
    using assms Some by (simp add: pdfInkOnly_def)
  have "\<forall>img \<in> set ?h. inkOnly S (imgData img)"
  proof
    fix img assume "img \<in> set ?h"
    then have "img = getImageData c \<or> img \<in> set (pdfHistoryRef s)" using sub by auto
    then show "inkOnly S (imgData img)"
      using c assms by (auto simp: getImageData_def pdfInkOnly_def)
  qed
  then show ?thesis using assms Some by (simp add: pdfSaveToHistory_def Let_def pdfInkOnly_def)
qed

lemma inv_canvas:
  assumes "pdfInkOnly S s" "inkOnly S (raster c)"
  shows "pdfInkOnly S (s\<lparr>drawingCanvasRef := Some c\<rparr>)"
  using assms by (simp add: pdfInkOnly_def)

lemma clear_raster: "raster (clearRect 0 0 (width c) (height c) c) = []"
  by (simp add: clearRect_def)

lemma inv_loadOverlay:
  assumes "pdfInkOnly S s" "\<And>img. d = Some img \<Longrightarrow> inkImage S img"
  shows "pdfInkOnly S (loadOverlay d s)"
proof (cases d)
  case (Some img)
  then show ?thesis using assms by (simp add: loadOverlay_def pdfInkOnly_def)
next
  case None
  show ?thesis
  proof (cases "drawingCanvasRef s")
    case n: None
    then show ?thesis using None assms(1) by (simp add: loadOverlay_def)
  next
    case (Some c)
    have "pdfInkOnly S (s\<lparr>drawingCanvasRef := Some (clearRect 0 0 (width c) (height c) c)\<rparr>)"
      by (rule inv_canvas [OF assms(1)]) (simp add: clear_raster inkOnly_simps)
    then show ?thesis using None Some by (simp add: loadOverlay_def inv_save)
  qed
qed

lemma inv_overlayOnload:
  assumes "pdfInkOnly S s" "inkImage S img"
  shows "pdfInkOnly S (overlayOnload img s)"
proof (cases "drawingCanvasRef s")
  case None
  then show ?thesis using assms(1) by (simp add: overlayOnload_def)
next
  case (Some c)
  have d: "inkPaint S (DrawImage a op (imgData img) x y w h)" for a op x y w h
    using assms(2) by (simp add: inkImage_def inkOnly_def)
  have "pdfInkOnly S (s\<lparr>drawingCanvasRef :=
          Some (drawImage img 0 0 (clearRect 0 0 (width c) (height c) c))\<rparr>)"
    by (rule inv_canvas [OF assms(1)])
       (simp add: drawImage_def emit_def clear_raster inkOnly_def d del: inkPaint.simps)
  then show ?thesis using Some by (simp add: overlayOnload_def inv_save)
qed

lemma inv_other_fields:
  assumes "pdfInkOnly S s"
  shows "pdfInkOnly S (s\<lparr>pdfCanvasRef := x\<rparr>)"
    and "pdfInkOnly S (s\<lparr>renderTaskRef := t\<rparr>)"
    and "pdfInkOnly S (s\<lparr>currentPageIndex := i\<rparr>)"
    and "pdfInkOnly S (s\<lparr>consoleErrors := e\<rparr>)"
    and "pdfInkOnly S (s\<lparr>pdfIsDrawing := b\<rparr>)"
    and "pdfInkOnly S (s\<lparr>pdfLastPoint := lp\<rparr>)"
    and "pdfInkOnly S (s\<lparr>isEditingDrawing := b\<rparr>)"
    and "pdfInkOnly S (s\<lparr>pdfToolState := tt\<rparr>)"
    and "pdfInkOnly S (s\<lparr>pdfColor := col\<rparr>)"
    and "pdfInkOnly S (s\<lparr>pdfBrushSize := bs\<rparr>)"
    and "pdfInkOnly S (s\<lparr>pdfIsDarkMode := dm\<rparr>)"
    and "pdfInkOnly S (s\<lparr>customPageBackground := bg\<rparr>)"
  using assms by (simp_all add: pdfInkOnly_def)

lemma cancelTask_pages:
  assumes "\<forall>t \<in> set ts. P (taskPage t)"
  shows "\<forall>t \<in> set (cancelTask k ts). P (taskPage t)"
proof (cases "k < length ts \<and> \<not> settled (ts ! k)")
  case True
  then have "P (taskPage ((ts ! k)\<lparr>cancelled := True\<rparr>))" using assms by simp
  then show ?thesis using True assms
    by (auto simp: cancelTask_def dest!: set_update_subset_insert [THEN subsetD])
next
  case False
  then show ?thesis using assms by (auto simp: cancelTask_def)
qed

lemma inv_tasks:
  assumes "pdfInkOnly S s" "\<forall>t \<in> set ts. inkPage S (taskPage t)"
  shows "pdfInkOnly S (s\<lparr>renderTasks := ts\<rparr>)"
  using assms by (simp add: pdfInkOnly_def)

lemma inv_tasks_of:
  assumes "pdfInkOnly S s"
  shows "\<forall>t \<in> set (renderTasks s). inkPage S (taskPage t)"
  using assms by (simp add: pdfInkOnly_def)

lemma inv_pages:
  assumes "pdfInkOnly S s" "\<forall>pg \<in> set ps. inkPage S pg"
  shows "pdfInkOnly S (s\<lparr>pages := ps\<rparr>)"
  using assms by (simp add: pdfInkOnly_def)

lemma inv_pages_of:
  assumes "pdfInkOnly S s"
  shows "\<forall>pg \<in> set (pages s). inkPage S pg"
  using assms by (simp add: pdfInkOnly_def)

lemma inv_cleanup:
  assumes "pdfInkOnly S s"
  shows "pdfInkOnly S (renderCleanup s)"
proof (cases "renderTaskRef s")
  case None
  then show ?thesis using assms by (simp add: renderCleanup_def)
next
  case (Some t)
  show ?thesis using Some
    by (simp add: renderCleanup_def
          inv_tasks [OF assms cancelTask_pages [where P = "inkPage S", OF inv_tasks_of [OF assms]]])
qed

lemma inv_renderPage:
  assumes "pdfInkOnly S s"
  shows "pdfInkOnly S (renderPage s)"
proof (cases "pdfDoc s")
  case None
  then show ?thesis using assms by (simp add: renderPage_def)
next
  case doc: (Some doc)
  show ?thesis
  proof (cases "currentPage s")
    case None
    then show ?thesis using assms doc by (simp add: renderPage_def)
  next
    case (Some page)
    then have "page \<in> set (pages s)"
      by (auto simp: currentPage_def split: if_splits)
    then have pg: "inkPage S page" using assms by (simp add: pdfInkOnly_def)
    show ?thesis
    proof (cases "pdfCanvasRef s")
      case None
      then show ?thesis using assms doc Some by (simp add: renderPage_def)
    next
      case pc: (Some pdfCanvas)
      show ?thesis
      proof (cases "drawingCanvasRef s")
        case None
        then show ?thesis using assms doc Some pc by (simp add: renderPage_def)
      next
        case dc: (Some drawingCanvas)
        let ?s1 = "case renderTaskRef s of None \<Rightarrow> s
                   | Some t \<Rightarrow> s\<lparr>renderTasks := cancelTask t (renderTasks s),
                                  renderTaskRef := None\<rparr>"
        have s1: "pdfInkOnly S ?s1"
        proof (cases "renderTaskRef s")
          case None
          then show ?thesis using assms by simp
        next
          case (Some t)
          have "pdfInkOnly S (s\<lparr>renderTasks := cancelTask t (renderTasks s)\<rparr>)"
            by (rule inv_tasks [OF assms
                  cancelTask_pages [where P = "inkPage S", OF inv_tasks_of [OF assms]]])
          then show ?thesis using Some by (simp add: pdfInkOnly_def)
        qed
        have r: "renderPage s =
            (if isCustomPage page
             then loadOverlay (customDrawingDataUrl page)
                    (?s1\<lparr>pdfCanvasRef := Some (drawCustomBackground pdfCanvas
                           (customPageBackground s) (pdfIsDarkMode s))\<rparr>)
             else if pageNumber page \<noteq> None
             then ?s1\<lparr>getPageWaiting := getPageWaiting ?s1 @ [page]\<rparr>
             else ?s1)"
          using doc Some pc dc by (simp add: renderPage_def Let_def)
        show ?thesis
        proof (cases "isCustomPage page")
          case True
          have "pdfInkOnly S (loadOverlay (customDrawingDataUrl page)
                    (?s1\<lparr>pdfCanvasRef := Some (drawCustomBackground pdfCanvas
                           (customPageBackground s) (pdfIsDarkMode s))\<rparr>))"
            by (rule inv_loadOverlay [OF inv_other_fields(1) [OF s1]])
               (use pg in \<open>simp add: inkPage_def\<close>)
          then show ?thesis using r True by simp
        next
          case False
          have "pdfInkOnly S (?s1\<lparr>getPageWaiting := getPageWaiting ?s1 @ [page]\<rparr>)"
            using s1 pg by (simp add: pdfInkOnly_def)
          then show ?thesis using r False s1 by simp
        qed
      qed
    qed
  qed
qed

lemma inv_setCurrentPageIndex:
  assumes "pdfInkOnly S s"
  shows "pdfInkOnly S (setCurrentPageIndex i s)"
  using assms
  by (simp add: setCurrentPageIndex_def inv_renderPage inv_other_fields(3) inv_cleanup)

lemma removeAt_subset: "set (removeAt k xs) \<subseteq> set xs"
  by (auto simp: removeAt_def dest: in_set_takeD in_set_dropD)

lemma inv_getPageResolved:
  assumes "pdfInkOnly S s"
  shows "pdfInkOnly S (getPageResolved k s)"
proof (cases "k < length (getPageWaiting s)")
  case False
  then show ?thesis using assms by (simp add: getPageResolved_def)
next
  case True
  let ?page = "getPageWaiting s ! k"
  let ?s1 = "s\<lparr>getPageWaiting := removeAt k (getPageWaiting s)\<rparr>"
  have pg: "inkPage S ?page" using assms True by (auto simp: pdfInkOnly_def)
  have s1: "pdfInkOnly S ?s1"
    using assms removeAt_subset [of k "getPageWaiting s"] by (auto simp: pdfInkOnly_def)
  have new: "pdfInkOnly S (?s1\<lparr>pdfCanvasRef := Some a, drawingCanvasRef := Some (newCanvas vw vh),
               renderTasks := renderTasks ?s1 @ [t], renderTaskRef := Some n\<rparr>)"
    if "taskPage t = ?page" for a vw vh t n
    using s1 pg that by (simp add: pdfInkOnly_def newCanvas_def inkOnly_simps)
  have err: "pdfInkOnly S (?s1\<lparr>consoleErrors := e\<rparr>)" for e
    by (rule inv_other_fields(4) [OF s1])
  show ?thesis
    using True s1 new err
    by (simp add: getPageResolved_def Let_def split: option.splits)
qed

lemma inv_settle_flag:
  assumes "pdfInkOnly S s" "t < length (renderTasks s)"
  shows "pdfInkOnly S
           (s\<lparr>renderTasks := (renderTasks s)[t := (renderTasks s ! t)\<lparr>settled := True\<rparr>]\<rparr>)"
proof (rule inv_tasks [OF assms(1)])
  have "inkPage S (taskPage ((renderTasks s ! t)\<lparr>settled := True\<rparr>))"
    using assms by (simp add: pdfInkOnly_def)
  then show "\<forall>x \<in> set ((renderTasks s)[t := (renderTasks s ! t)\<lparr>settled := True\<rparr>]).
               inkPage S (taskPage x)"
    using inv_tasks_of [OF assms(1)]
    by (auto dest!: set_update_subset_insert [THEN subsetD])
qed

lemma inv_renderSettled:
  assumes "pdfInkOnly S s"
  shows "pdfInkOnly S (renderSettled t s)"
proof (cases "t < length (renderTasks s) \<and> \<not> settled (renderTasks s ! t)")
  case False
  then show ?thesis using assms by (auto simp: renderSettled_def)
next
  case True
  let ?task = "renderTasks s ! t"
  let ?s1 = "s\<lparr>renderTasks := (renderTasks s)[t := ?task\<lparr>settled := True\<rparr>]\<rparr>"
  have s1: "pdfInkOnly S ?s1" using inv_settle_flag [OF assms] True by simp
  have pg: "inkPage S (taskPage ?task)" using assms True by (simp add: pdfInkOnly_def)
  have "pdfInkOnly S (loadOverlay (drawingDataUrl (taskPage ?task)) (?s1\<lparr>pdfCanvasRef := x\<rparr>))"
    for x
    by (rule inv_loadOverlay [OF inv_other_fields(1) [OF s1]])
       (use pg in \<open>simp add: inkPage_def\<close>)
  then show ?thesis using True s1 by (simp add: renderSettled_def Let_def)
qed

lemma inv_renderFailed:
  assumes "pdfInkOnly S s"
  shows "pdfInkOnly S (renderFailed t s)"
proof (cases "t < length (renderTasks s) \<and> \<not> settled (renderTasks s ! t)")
  case False
  then show ?thesis using assms by (auto simp: renderFailed_def)
next
  case True
  let ?task = "renderTasks s ! t"
  let ?s1 = "s\<lparr>renderTasks := (renderTasks s)[t := ?task\<lparr>settled := True\<rparr>]\<rparr>"
  have s1: "pdfInkOnly S ?s1" using inv_settle_flag [OF assms] True by simp
  show ?thesis using True s1 inv_other_fields(4) [OF s1]
    by (simp add: renderFailed_def Let_def)
qed

lemma pdfDrawLine_ink:
  assumes "inkOnly S (raster c)"
  shows "inkOnly S (raster (pdfDrawLine s from to c))"
  using assms
  by (simp add: pdfDrawLine_def Let_def stroke_def emit_def strokeBrush_def lineTo_def
        moveTo_def beginPath_def inkOnly_simps)

lemma inv_pointerDown:
  assumes "pdfInkOnly S s" "pdfHandlePointerDown e s = Inr s'"
  shows "pdfInkOnly S s'"
  using assms
  by (auto simp: pdfHandlePointerDown_def pdfGetCanvasPoint_def Let_def pdfInkOnly_def
        split: if_splits option.splits)

lemma inv_pointerMove:
  assumes "pdfInkOnly S s" "pdfHandlePointerMove e s = Inr s'"
  shows "pdfInkOnly S s'"
proof (cases "\<not> pdfIsDrawing s \<or> \<not> isEditingDrawing s")
  case True
  then show ?thesis using assms by (auto simp: pdfHandlePointerMove_def)
next
  case False
  show ?thesis
  proof (cases "drawingCanvasRef s")
    case None
    then show ?thesis using assms False by (auto simp: pdfHandlePointerMove_def)
  next
    case (Some c)
    show ?thesis
    proof (cases "pdfLastPoint s")
      case None
      then show ?thesis using assms False Some by (auto simp: pdfHandlePointerMove_def)
    next
      case lp: (Some lp)
      have c: "inkOnly S (raster c)"
        using assms(1) Some by (simp add: pdfInkOnly_def)
      have "pdfInkOnly S (s\<lparr>drawingCanvasRef := Some (pdfDrawLine s lp cp c)\<rparr>)" for cp
        by (rule inv_canvas [OF assms(1) pdfDrawLine_ink [OF c]])
      then have "pdfInkOnly S (s\<lparr>drawingCanvasRef := Some (pdfDrawLine s lp cp c),
                   pdfLastPoint := Some cp\<rparr>)" for cp
        using inv_other_fields(6) by blast
      then show ?thesis using assms(2) False Some lp
        by (auto simp: pdfHandlePointerMove_def pdfGetCanvasPoint_def Let_def)
    qed
  qed
qed

lemma inv_pointerUp:
  assumes "pdfInkOnly S s" "pdfHandlePointerUp e s = Inr s'"
  shows "pdfInkOnly S s'"
proof (cases "pdfIsDrawing s")
  case False
  then show ?thesis using assms by (simp add: pdfHandlePointerUp_def)
next
  case True
  have "pdfInkOnly S (s\<lparr>pdfIsDrawing := False, pdfLastPoint := None\<rparr>)"
    using assms(1) by (simp add: pdfInkOnly_def)
  then show ?thesis using assms(2) True inv_save by (auto simp: pdfHandlePointerUp_def)
qed

lemma putImageData_ink:
  assumes "inkOnly S (raster c)" "inkOnly S (imgData img)"
  shows "inkOnly S (raster (putImageData img c))"
  using assms by (simp add: putImageData_def emit_def inkOnly_def)

lemma inv_restore:
  assumes "pdfInkOnly S s" "pdfRestoreEntry (s\<lparr>pdfHistoryIndexRef := i\<rparr>) = Inr s'"
  shows "pdfInkOnly S s'"
proof (cases "drawingCanvasRef s")
  case None
  then show ?thesis using assms by (auto simp: pdfRestoreEntry_def pdfInkOnly_def)
next
  case (Some c)
  have c: "inkOnly S (raster c)"
    using assms(1) Some by (simp add: pdfInkOnly_def)
  have r: "0 \<le> i" "i < int (length (pdfHistoryRef s))"
    using assms(2) Some by (auto simp: pdfRestoreEntry_def Let_def split: if_splits)
  then have "pdfHistoryRef s ! nat i \<in> set (pdfHistoryRef s)" by simp
  then have h: "inkOnly S (imgData (pdfHistoryRef s ! nat i))"
    using assms(1) by (simp add: pdfInkOnly_def)
  have i: "pdfInkOnly S (s\<lparr>pdfHistoryIndexRef := i\<rparr>)"
    using assms(1) by (simp add: pdfInkOnly_def)
  have "pdfInkOnly S ((s\<lparr>pdfHistoryIndexRef := i\<rparr>)\<lparr>drawingCanvasRef :=
          Some (putImageData (pdfHistoryRef s ! nat i) c)\<rparr>)"
    by (rule inv_canvas [OF i]) (simp add: putImageData_ink [OF c h])
  then show ?thesis using assms(2) Some r by (auto simp: pdfRestoreEntry_def Let_def)
qed

lemma inv_undo_redo:
  assumes "pdfInkOnly S s"
  shows "pdfUndo s = Inr s' \<Longrightarrow> pdfInkOnly S s'" and "pdfRedo s = Inr s' \<Longrightarrow> pdfInkOnly S s'"
  using assms inv_restore [OF assms]
  by (auto simp: pdfUndo_def pdfRedo_def split: if_splits)

lemma inv_keyDown:
  assumes "pdfInkOnly S s" "pdfHandleKeyDown ctrlKey shiftKey key s = Inr s'"
  shows "pdfInkOnly S s'"
  using assms inv_undo_redo [OF assms(1)]
  by (auto simp: pdfHandleKeyDown_def split: if_splits)

lemma inv_clear:
  assumes "pdfInkOnly S s"
  shows "pdfInkOnly S (handleClearDrawing s)"
proof (cases "drawingCanvasRef s")
  case None
  then show ?thesis using assms by (simp add: handleClearDrawing_def)
next
  case (Some c)
  have "pdfInkOnly S (s\<lparr>drawingCanvasRef := Some (clearRect 0 0 (width c) (height c) c)\<rparr>)"
    by (rule inv_canvas [OF assms]) (simp add: clear_raster inkOnly_simps)
  then show ?thesis using Some by (simp add: handleClearDrawing_def inv_save)
qed

lemma inv_overlayLoaded:
  assumes "pdfInkOnly S s" "k < length (overlayWaiting s)"
  shows "pdfInkOnly S (overlayOnload (overlayWaiting s ! k)
           (s\<lparr>overlayWaiting := removeAt k (overlayWaiting s)\<rparr>))"
proof -
  have in_s: "inkImage S (overlayWaiting s ! k)"
    using assms by (simp add: pdfInkOnly_def)
  have "pdfInkOnly S (s\<lparr>overlayWaiting := removeAt k (overlayWaiting s)\<rparr>)"
    using assms(1) removeAt_subset [of k "overlayWaiting s"] by (auto simp: pdfInkOnly_def)
  then show ?thesis by (rule inv_overlayOnload) (rule in_s)
qed

text \<open>
  Saving writes the ink canvas, which holds only ink, into the current page's record; a new
  page has no overlay; deleting removes a record.
\<close>

lemma inv_rerender:
  assumes "pdfInkOnly S s" "\<forall>pg \<in> set ps. inkPage S pg"
  shows "pdfInkOnly S (renderPage ((renderCleanup s)\<lparr>pages := ps\<rparr>))"
  by (rule inv_renderPage [OF inv_pages [OF inv_cleanup [OF assms(1)] assms(2)]])

lemma inv_handleSaveDrawing:
  assumes "pdfInkOnly S s"
  shows "pdfInkOnly S (handleSaveDrawing s)"
proof (cases "drawingCanvasRef s")
  case None
  then show ?thesis using assms by (simp add: handleSaveDrawing_def)
next
  case (Some canvas)
  show ?thesis
  proof (cases "currentPage s")
    case None
    then show ?thesis using assms Some by (simp add: handleSaveDrawing_def)
  next
    case pg: (Some page)
    then have "page \<in> set (pages s)" by (auto simp: currentPage_def split: if_splits)
    then have p: "inkPage S page" using assms by (simp add: pdfInkOnly_def)
    have img: "inkImage S (toDataURL canvas)"
      using assms Some by (simp add: pdfInkOnly_def inkImage_def toDataURL_def)
    let ?u = "if isCustomPage page then page\<lparr>customDrawingDataUrl := Some (toDataURL canvas)\<rparr>
              else page\<lparr>drawingDataUrl := Some (toDataURL canvas)\<rparr>"
    have u: "inkPage S ?u" using p img by (simp add: inkPage_def)
    have ps: "\<forall>pg \<in> set ((pages s)[currentPageIndex s := ?u]). inkPage S pg"
      using u inv_pages_of [OF assms]
      by (auto dest!: set_update_subset_insert [THEN subsetD])
    have "pdfInkOnly S (renderPage ((renderCleanup s)\<lparr>pages := (pages s)[currentPageIndex s := ?u]\<rparr>
            \<lparr>isEditingDrawing := False\<rparr>))"
      by (rule inv_renderPage [OF inv_other_fields(7)
            [OF inv_pages [OF inv_cleanup [OF assms] ps]]])
    then show ?thesis using Some pg by (simp add: handleSaveDrawing_def Let_def)
  qed
qed

lemma inv_handleUpdateNoteCells:
  assumes "pdfInkOnly S s"
  shows "pdfInkOnly S (handleUpdateNoteCells s)"
  using assms
  by (simp add: handleUpdateNoteCells_def inv_renderPage inv_cleanup split: option.splits)

lemma inv_addPageAfterCurrent:
  assumes "pdfInkOnly S s"
  shows "pdfInkOnly S (addPageAfterCurrent type s)"
proof -
  let ?ps = "take (currentPageIndex s + 1) (pages s) @ [newPage] @
               drop (currentPageIndex s + 1) (pages s)"
  have n: "inkPage S newPage" by (simp add: inkPage_def newPage_def)
  have ps: "\<forall>pg \<in> set ?ps. inkPage S pg"
    using n inv_pages_of [OF assms] by (auto dest: in_set_takeD in_set_dropD)
  have "pdfInkOnly S (renderPage ((renderCleanup s)\<lparr>pages := ?ps\<rparr>
          \<lparr>currentPageIndex := currentPageIndex s + 1\<rparr>\<lparr>customPageBackground := type\<rparr>))"
    by (rule inv_renderPage [OF inv_other_fields(12) [OF inv_other_fields(3)
          [OF inv_pages [OF inv_cleanup [OF assms] ps]]]])
  then show ?thesis by (simp add: addPageAfterCurrent_def Let_def)
qed

lemma inv_deletePage:
  assumes "pdfInkOnly S s"
  shows "pdfInkOnly S (deletePage s)"
proof (cases "length (pages s) \<le> 1")
  case True
  then show ?thesis using assms by (simp add: deletePage_def)
next
  case False
  let ?ps = "removeAt (currentPageIndex s) (pages s)"
  have ps: "\<forall>pg \<in> set ?ps. inkPage S pg"
    using inv_pages_of [OF assms] removeAt_subset [of "currentPageIndex s" "pages s"] by auto
  have "pdfInkOnly S (renderPage ((renderCleanup s)\<lparr>pages := ?ps\<rparr>\<lparr>currentPageIndex := i\<rparr>))"
    for i
    by (rule inv_renderPage [OF inv_other_fields(3)
          [OF inv_pages [OF inv_cleanup [OF assms] ps]]])
  then show ?thesis using False by (simp add: deletePage_def Let_def)
qed

lemma inv_setIsDarkMode:
  assumes "pdfInkOnly S s"
  shows "pdfInkOnly S (setIsDarkMode d s)"
  using assms
  by (simp add: setIsDarkMode_def inv_renderPage inv_other_fields(11) inv_cleanup)

lemma inv_dispatch:
  assumes "pdfInkOnly S s" "pdfDispatch ev s = Inr s'"
  shows "pdfInkOnly S s'"
proof (cases ev)
  case (PdfPointerDown e)
  then show ?thesis using assms inv_pointerDown by (simp add: pdfDispatch_def)
next
  case (PdfPointerMove e)
  then show ?thesis using assms inv_pointerMove by (simp add: pdfDispatch_def)
next
  case (PdfPointerUp e)
  then show ?thesis using assms inv_pointerUp by (simp add: pdfDispatch_def)
next
  case (PdfPointerLeave e)
  then show ?thesis using assms inv_pointerUp by (simp add: pdfDispatch_def)
next
  case PdfUndoClick
  then show ?thesis using assms inv_undo_redo(1) by (simp add: pdfDispatch_def)
next
  case PdfRedoClick
  then show ?thesis using assms inv_undo_redo(2) by (simp add: pdfDispatch_def)
next
  case PdfClearClick
  then show ?thesis using assms inv_clear by (auto simp: pdfDispatch_def)
next
  case PdfEditClick
  then show ?thesis using assms inv_other_fields(7) by (auto simp: pdfDispatch_def)
next
  case (PdfSetTool t)
  then show ?thesis using assms inv_other_fields(8) by (auto simp: pdfDispatch_def)
next
  case (PdfSetColor c)
  then show ?thesis using assms inv_other_fields(9) by (auto simp: pdfDispatch_def)
next
  case (PdfSetBrushSize b)
  then show ?thesis using assms inv_other_fields(10) by (auto simp: pdfDispatch_def)
next
  case (GoToPage i)
  then show ?thesis using assms inv_setCurrentPageIndex by (auto simp: pdfDispatch_def)
next
  case (GetPageResolved k)
  then show ?thesis using assms inv_getPageResolved by (auto simp: pdfDispatch_def)
next
  case (RenderSettled t)
  then show ?thesis using assms inv_renderSettled by (auto simp: pdfDispatch_def)
next
  case (RenderFailed t)
  then show ?thesis using assms inv_renderFailed by (auto simp: pdfDispatch_def)
next
  case (OverlayLoaded k)
  then show ?thesis using assms inv_overlayLoaded
    by (auto simp: pdfDispatch_def split: if_splits)
next
  case PdfCanvasClick
  then show ?thesis using assms inv_other_fields(7)
    by (auto simp: pdfDispatch_def split: if_splits)
next
  case PdfCancelClick
  then show ?thesis using assms inv_other_fields(7) by (auto simp: pdfDispatch_def)
next
  case PdfSaveClick
  then show ?thesis using assms inv_handleSaveDrawing by (auto simp: pdfDispatch_def)
next
  case (PdfKeyDown ctrlKey shiftKey key)
  then show ?thesis using assms inv_keyDown by (simp add: pdfDispatch_def)
next
  case (PdfAddPage type)
  then show ?thesis using assms inv_addPageAfterCurrent by (auto simp: pdfDispatch_def)
next
  case PdfDeletePageClick
  then show ?thesis using assms inv_deletePage by (auto simp: pdfDispatch_def)
next
  case (PdfThemeChanged d)
  then show ?thesis using assms inv_setIsDarkMode by (auto simp: pdfDispatch_def)
next
  case PdfNotesUpdated
  then show ?thesis using assms inv_handleUpdateNoteCells by (auto simp: pdfDispatch_def)
qed

lemma inv_run:
  assumes "pdfInkOnly S s" "pdfRun evs s = Inr s'"
  shows "pdfInkOnly S s'"
  using assms
proof (induction evs arbitrary: s)
  case Nil
  then show ?case by simp
next
  case (Cons ev evs)
  obtain s1 where s1: "pdfDispatch ev s = Inr s1" "pdfRun evs s1 = Inr s'"
    using Cons.prems(2) by (auto split: sum.splits)
  show ?case by (rule Cons.IH [OF inv_dispatch [OF Cons.prems(1) s1(1)] s1(2)])
qed

lemma inv_open: "pdfInkOnly (savedOverlays ps) (pdfOpen ps doc)"
  unfolding pdfOpen_def
  by (rule inv_renderPage)
     (auto simp: pdfInkOnly_def newCanvas_def inkOnly_simps inkPage_def inkImage_def
        savedOverlays_def)

text \<open>The paint order of each component's canvases.\<close>

lemma stack_eval:
  "stackAt (drawingCellCanvases d) p =
     layerOver (previewCanvasRef d) p
       (layerOver (canvasRef d) p (layerOver (bgCanvasRef d) p Transparent))"
  "stackAt (miniDrawingCanvases m) p =
     layerOver (miniPreviewCanvasRef m) p
       (layerOver (miniCanvasRef m) p (layerOver (miniBgCanvasRef m) p Transparent))"
  "stackAt (pdfCellCanvases s) p =
     layerOver (drawingCanvasRef s) p (layerOver (pdfCanvasRef s) p Transparent)"
  by (simp_all add: stackAt_def paintOrder_def drawingCellCanvases_def miniDrawingCanvases_def
        pdfCellCanvases_def)

text \<open>
  Claim C4, as amended. In every state the PDF cell reaches from opening a document, by the
  pointer events of the drawing canvas, undo, redo and clear (by button or by key), starting,
  cancelling and saving the annotation, page switches, adding and deleting pages, a change
  of theme, an update of the notes, and the completion of page requests, renders and image
  loads in any order, the ink layer of the annotation overlay holds only ink: freehand
  segments, saved overlays drawn back and restored snapshots of these. No background fill,
  ruling, dot or page picture, which are painted on the page canvas, is in it. And what each
  component displays is composited base, then ink, then preview: in the drawing cell and in
  the mini drawing cell the preview canvas over the main canvas over the background canvas,
  and in the PDF cell, which has no preview canvas, the drawing canvas over the page canvas.
\<close>

theorem pdf_ink_layer:
  "(pdfRun evs (pdfOpen ps doc) = Inr s \<longrightarrow>
      (\<forall>c. drawingCanvasRef s = Some c \<longrightarrow>
         (\<forall>q \<in> set (raster c). inkPaint (savedOverlays ps) q))) \<and>
   stackAt (pdfCellCanvases s) p =
     layerOver (drawingCanvasRef s) p (layerOver (pdfCanvasRef s) p Transparent) \<and>
   stackAt (drawingCellCanvases d) p =
     layerOver (previewCanvasRef d) p
       (layerOver (canvasRef d) p (layerOver (bgCanvasRef d) p Transparent)) \<and>
   stackAt (miniDrawingCanvases m) p =
     layerOver (miniPreviewCanvasRef m) p
       (layerOver (miniCanvasRef m) p (layerOver (miniBgCanvasRef m) p Transparent))"
proof -
  have "pdfInkOnly (savedOverlays ps) s" if "pdfRun evs (pdfOpen ps doc) = Inr s"
    by (rule inv_run [OF inv_open that])
  then show ?thesis by (simp add: pdfInkOnly_def inkOnly_def stack_eval)
qed

lemma annotateAndSave_result:
  "\<exists>s c. pdfRun annotateAndSave samplePdf = Inr s \<and> drawingCanvasRef s = Some c \<and>
     raster c =
       [DrawImage 1 SourceOver
          [StrokePath \<lparr>paintColour = ''#ef4444'', paintWidth = 3, paintCap = Round,
             paintJoin = RoundJoin, paintAlpha = 1, paintOp = SourceOver\<rparr>
             [MoveTo 10 25, LineTo 20 50]] 0 0 800 1000] \<and>
     baseLayer s = Some [pagePicture ''#aa0000'']"
  by (simp add: annotateAndSave_def annotatePage_def pdf_run_eval pdfHandlePointerDown_def
        pdfHandlePointerMove_def pdfHandlePointerUp_def pdfGetCanvasPoint_def pdfDrawLine_def
        sampleEvent_def stroke_def strokeBrush_def lineTo_def moveTo_def beginPath_def
        handleSaveDrawing_def toDataURL_def overlayOnload_def drawImage_def)

theorem pdf_ink_layer_witness:
  "\<exists>s c. pdfRun annotateAndSave
            (pdfOpen [samplePage 1, samplePage 2, samplePage 3]
               [sampleProxy ''#aa0000'', sampleProxy ''#00aa00'', sampleProxy ''#0000aa'']) = Inr s \<and>
     drawingCanvasRef s = Some c \<and> raster c \<noteq> [] \<and>
     (\<forall>q \<in> set (raster c).
        inkPaint (savedOverlays [samplePage 1, samplePage 2, samplePage 3]) q) \<and>
     stackAt (pdfCellCanvases s) (15, 37.5) =
       layerOver (drawingCanvasRef s) (15, 37.5) (layerOver (pdfCanvasRef s) (15, 37.5) Transparent) \<and>
     stackAt (drawingCellCanvases (openCell None 800 400)) (15, 37.5) =
       layerOver (previewCanvasRef (openCell None 800 400)) (15, 37.5)
         (layerOver (canvasRef (openCell None 800 400)) (15, 37.5)
            (layerOver (bgCanvasRef (openCell None 800 400)) (15, 37.5) Transparent)) \<and>
     stackAt (miniDrawingCanvases (miniOpen None 150 Blank)) (15, 37.5) =
       layerOver (miniPreviewCanvasRef (miniOpen None 150 Blank)) (15, 37.5)
         (layerOver (miniCanvasRef (miniOpen None 150 Blank)) (15, 37.5)
            (layerOver (miniBgCanvasRef (miniOpen None 150 Blank)) (15, 37.5) Transparent))"
proof -
  obtain s c where r: "pdfRun annotateAndSave samplePdf = Inr s" "drawingCanvasRef s = Some c"
    "raster c \<noteq> []"
    using annotateAndSave_result by auto
  have r': "pdfRun annotateAndSave
            (pdfOpen [samplePage 1, samplePage 2, samplePage 3]
               [sampleProxy ''#aa0000'', sampleProxy ''#00aa00'', sampleProxy ''#0000aa'']) = Inr s"
    using r(1) by (simp add: samplePdf_def)
  show ?thesis
    using r' r(2,3)
      pdf_ink_layer [of annotateAndSave "[samplePage 1, samplePage 2, samplePage 3]"
        "[sampleProxy ''#aa0000'', sampleProxy ''#00aa00'', sampleProxy ''#0000aa'']" s
        "(15, 37.5)" "openCell None 800 400" "miniOpen None 150 Blank"]
    by blast
qed

text \<open>
  The drawing cell's display, as the claims on the eraser read it, is this stack. On the
  sample document, after the annotation is saved, the PDF cell displays the stroke's colour
  at a point of the stroke and the page's picture away from it.
\<close>

lemma displayAt_stack: "displayAt d p = stackAt (drawingCellCanvases d) p"
  by (simp add: displayAt_def stack_eval)

lemma pdf_display_example:
  "\<exists>s. pdfRun annotateAndSave samplePdf = Inr s \<and>
     stackAt (pdfCellCanvases s) (15, 37.5) = Solid ''#ef4444'' \<and>
     stackAt (pdfCellCanvases s) (400, 500) = Solid ''#aa0000''"
proof -
  obtain s c where r: "pdfRun annotateAndSave samplePdf = Inr s" "drawingCanvasRef s = Some c"
    "raster c =
       [DrawImage 1 SourceOver
          [StrokePath \<lparr>paintColour = ''#ef4444'', paintWidth = 3, paintCap = Round,
             paintJoin = RoundJoin, paintAlpha = 1, paintOp = SourceOver\<rparr>
             [MoveTo 10 25, LineTo 20 50]] 0 0 800 1000]"
    "baseLayer s = Some [pagePicture ''#aa0000'']"
    using annotateAndSave_result by blast
  obtain pc where pc: "pdfCanvasRef s = Some pc" "raster pc = [pagePicture ''#aa0000'']"
    using r(4) by (auto simp: baseLayer_def)
  have "stackAt (pdfCellCanvases s) (15, 37.5) = Solid ''#ef4444''"
    "stackAt (pdfCellCanvases s) (400, 500) = Solid ''#aa0000''"
    using r(2,3) pc
    by (simp_all add: stack_eval layerOver_def pixelAt_def blend_def inRect_def nearSegment_def
          imageOver_def pagePicture_def sampleProxy_def Let_def)
  then show ?thesis using r(1) by blast
qed

end
